theory Spec2Isabelle
  imports Complex_Main
begin

section \<open>Values, transactions and library functions\<close>

text \<open>
  The repository holds two implementations of the same voting ledger: the standalone
  modules \<^verbatim>\<open>blockchain.py\<close> and \<^verbatim>\<open>voting_system.py\<close>, and the web module
  \<^verbatim>\<open>app.py\<close>. Class \<^verbatim>\<open>Block\<close> is the same in both; the classes \<^verbatim>\<open>Blockchain\<close> and
  \<^verbatim>\<open>VotingSystem\<close> differ, and the definitions taken from \<^verbatim>\<open>app.py\<close> carry the
  prefix \<open>app_\<close>.

  A transaction is a Python value stored in a block: the string \<^verbatim>\<open>"Genesis Block"\<close>
  (\<^verbatim>\<open>blockchain.py\<close>) or a dict with string keys whose values are strings or floats.
  A dict literal is kept as the list of its items; timestamps (\<^verbatim>\<open>time.time()\<close>) are
  reals that are only stored and serialised, never computed with.

  A Python \<^verbatim>\<open>str\<close> is kept as the bytes of its code points in UTF-8, a surrogate code
  point (U+D800 to U+DFFF), which a \<^verbatim>\<open>str\<close> may hold on its own, in the same three-byte
  form: the byte \<^verbatim>\<open>ED\<close> followed by a byte from \<^verbatim>\<open>A0\<close> to \<^verbatim>\<open>BF\<close>. No other code point
  has these two bytes in a row.
\<close>

datatype pyval = PStr string | PFloat real

datatype transaction = Str string | Dict "(string \<times> pyval) list"

text \<open>\<^verbatim>\<open>isinstance(t, dict) and k in t\<close> holds iff \<open>lookup k t \<noteq> None\<close>, and then
  \<^verbatim>\<open>t[k]\<close> is the value found.\<close>

fun lookup :: "string \<Rightarrow> transaction \<Rightarrow> pyval option" where
  "lookup k (Str s) = None"
| "lookup k (Dict d) = map_of d k"

text \<open>
  The functions of the Python standard library that the code calls are parameters of the
  model: \<^verbatim>\<open>hashlib.sha256(b).hexdigest()\<close> on bytes,
  \<^verbatim>\<open>json.dumps(..., sort_keys=True).encode()\<close> on the five fields of a block (the
  output of \<^verbatim>\<open>json.dumps\<close> is ASCII, every other character being escaped, so that this
  \<^verbatim>\<open>encode\<close> cannot raise), and the formatting of a float inside an f-string.
  The clock reading of each call to \<^verbatim>\<open>time.time()\<close> is an argument \<open>now\<close> of the
  operation that reads it. Console output (\<^verbatim>\<open>print\<close>) is left out, except in
  \<open>is_chain_valid\<close> of \<^verbatim>\<open>blockchain.py\<close>, whose printed line is its only report of
  the failing index.
\<close>

record lib =
  sha256_hexdigest :: "string \<Rightarrow> string"
  json_dumps :: "nat \<times> transaction list \<times> real \<times> string \<times> nat \<Rightarrow> string"
  str_float :: "real \<Rightarrow> string"

text \<open>Python's \<^verbatim>\<open>s[:n]\<close> and \<^verbatim>\<open>s * n\<close> for any integer \<open>n\<close>: a negative \<open>n\<close> drops
  characters from the end of the slice, and repeats zero times.\<close>

definition slice_to :: "'a list \<Rightarrow> int \<Rightarrow> 'a list" where
  "slice_to s n = (if 0 \<le> n then take (nat n) s else take (nat (int (length s) + n)) s)"

definition str_mul :: "string \<Rightarrow> int \<Rightarrow> string" where
  "str_mul s n = concat (replicate (nat n) s)"

text \<open>Decimal rendering of a natural number, as \<^verbatim>\<open>f"{i}"\<close> gives it.\<close>

definition digit_char :: "nat \<Rightarrow> char" where
  "digit_char d = ''0123456789'' ! d"

fun str_nat :: "nat \<Rightarrow> string" where
  "str_nat n = (if n < 10 then [digit_char n] else str_nat (n div 10) @ [digit_char (n mod 10)])"

declare str_nat.simps [simp del]

text \<open>\<^verbatim>\<open>sep.join(xs)\<close>.\<close>

fun join :: "string \<Rightarrow> string list \<Rightarrow> string" where
  "join sep [] = []"
| "join sep [x] = x"
| "join sep (x # y # ys) = x @ sep @ join sep (y # ys)"

datatype exn = Exception string | IndexError | UnicodeEncodeError

text \<open>\<^verbatim>\<open>s.encode()\<close> raises \<^verbatim>\<open>UnicodeEncodeError\<close> on a \<^verbatim>\<open>str\<close> that holds a surrogate
  code point, and returns the UTF-8 bytes of any other.\<close>

fun has_surrogate :: "string \<Rightarrow> bool" where
  "has_surrogate (a # b # cs) =
     ((a = CHR 0xED \<and> (0xA0::nat) \<le> of_char b \<and> of_char b \<le> (0xBF::nat))
      \<or> has_surrogate (b # cs))"
| "has_surrogate _ = False"

definition encode :: "string \<Rightarrow> exn + string" where
  "encode s = (if has_surrogate s then Inl UnicodeEncodeError else Inr s)"

section \<open>Class Block\<close>

record block =
  index :: nat
  transactions :: "transaction list"
  timestamp :: real
  previous_hash :: string
  nonce :: nat
  hash :: string

definition calculate_hash :: "lib \<Rightarrow> block \<Rightarrow> string" where
  "calculate_hash L b =
     sha256_hexdigest L
       (json_dumps L (index b, transactions b, timestamp b, previous_hash b, nonce b))"

text \<open>The constructor \<^verbatim>\<open>Block(index, transactions, timestamp, previous_hash)\<close>.\<close>

definition Block :: "lib \<Rightarrow> nat \<Rightarrow> transaction list \<Rightarrow> real \<Rightarrow> string \<Rightarrow> block" where
  "Block L i txs ts prev =
     (let self = \<lparr>index = i, transactions = txs, timestamp = ts, previous_hash = prev,
                  nonce = 0, hash = []\<rparr>
      in self\<lparr>hash := calculate_hash L self\<rparr>)"

text \<open>The body of the proof-of-work loop, and its guard.\<close>

definition mine_step :: "lib \<Rightarrow> block \<Rightarrow> block" where
  "mine_step L b =
     (let b1 = b\<lparr>nonce := nonce b + 1\<rparr> in b1\<lparr>hash := calculate_hash L b1\<rparr>)"

definition target_unmet :: "int \<Rightarrow> block \<Rightarrow> bool" where
  "target_unmet difficulty b \<longleftrightarrow> slice_to (hash b) difficulty \<noteq> str_mul ''0'' difficulty"

text \<open>\<^verbatim>\<open>Block.mine_block\<close>: the search has no bound, so the model returns \<open>None\<close>
  when the loop never ends.\<close>

partial_function (option) mine_block :: "lib \<Rightarrow> int \<Rightarrow> block \<Rightarrow> block option" where
  "mine_block L difficulty b =
     (if target_unmet difficulty b then mine_block L difficulty (mine_step L b) else Some b)"


section \<open>blockchain.py: class Blockchain\<close>

record blockchain =
  chain :: "block list"
  difficulty :: int
  pending_transactions :: "transaction list"

text \<open>\<^verbatim>\<open>create_genesis_block\<close>, called by the constructor on the empty chain.\<close>

definition create_genesis_block :: "lib \<Rightarrow> real \<Rightarrow> blockchain \<Rightarrow> blockchain option" where
  "create_genesis_block L now self =
     (case mine_block L (difficulty self) (Block L 0 [Str ''Genesis Block''] now ''0'') of
        None \<Rightarrow> None
      | Some genesis_block \<Rightarrow> Some (self\<lparr>chain := chain self @ [genesis_block]\<rparr>))"

definition Blockchain :: "lib \<Rightarrow> real \<Rightarrow> blockchain option" where
  "Blockchain L now =
     create_genesis_block L now \<lparr>chain = [], difficulty = 2, pending_transactions = []\<rparr>"

text \<open>\<^verbatim>\<open>self.chain[-1]\<close> raises \<^verbatim>\<open>IndexError\<close> on an empty chain.\<close>

definition get_latest_block :: "blockchain \<Rightarrow> exn + block" where
  "get_latest_block self = (if chain self = [] then Inl IndexError else Inr (last (chain self)))"

definition add_transaction :: "blockchain \<Rightarrow> transaction \<Rightarrow> bool \<times> blockchain" where
  "add_transaction self transaction =
     (True, self\<lparr>pending_transactions := pending_transactions self @ [transaction]\<rparr>)"

text \<open>\<^verbatim>\<open>mine_pending_transactions\<close>: \<open>None\<close> when the proof-of-work never ends,
  \<open>Inl\<close> an exception raised, \<open>Inr\<close> the returned flag and the new state.\<close>

definition mine_pending_transactions ::
  "lib \<Rightarrow> real \<Rightarrow> blockchain \<Rightarrow> (exn + bool \<times> blockchain) option" where
  "mine_pending_transactions L now self =
     (if pending_transactions self = [] then Some (Inr (False, self))
      else case get_latest_block self of
        Inl e \<Rightarrow> Some (Inl e)
      | Inr latest \<Rightarrow>
          (case mine_block L (difficulty self)
                  (Block L (length (chain self)) (pending_transactions self) now (hash latest)) of
             None \<Rightarrow> None
           | Some block \<Rightarrow>
               Some (Inr (True, self\<lparr>chain := chain self @ [block],
                                      pending_transactions := []\<rparr>))))"

text \<open>\<^verbatim>\<open>is_chain_valid\<close>: the loop over \<^verbatim>\<open>range(1, len(self.chain))\<close>, started at
  \<open>i = 1\<close>. The result is the returned flag and the lines printed.\<close>

function is_chain_valid_from :: "lib \<Rightarrow> block list \<Rightarrow> nat \<Rightarrow> bool \<times> string list" where
  "is_chain_valid_from L c i =
     (if i < length c then
        (let current = c ! i; previous = c ! (i - 1) in
         if hash current \<noteq> calculate_hash L current then
           (False, [''Block '' @ str_nat i @ '' hash is invalid!''])
         else if previous_hash current \<noteq> hash previous then
           (False, [''Block '' @ str_nat i @ '' previous hash doesn't match!''])
         else is_chain_valid_from L c (i + 1))
      else (True, []))"
  by pat_completeness auto
termination
  by (relation "measure (\<lambda>(L, c, i). length c - i)") auto

declare is_chain_valid_from.simps [simp del]

definition is_chain_valid :: "lib \<Rightarrow> blockchain \<Rightarrow> bool \<times> string list" where
  "is_chain_valid L self = is_chain_valid_from L (chain self) 1"

text \<open>\<^verbatim>\<open>get_voter_votes\<close>: the inner loop over the transactions of one block, the outer
  loop over the blocks.\<close>

fun voter_votes_txs :: "transaction list \<Rightarrow> (pyval \<rightharpoonup> pyval) \<Rightarrow> (pyval \<rightharpoonup> pyval)" where
  "voter_votes_txs [] votes = votes"
| "voter_votes_txs (t # ts) votes =
     (case lookup ''voter_id'' t of
        Some v \<Rightarrow>
          voter_votes_txs ts
            (votes(v \<mapsto> (case lookup ''candidate'' t of Some c \<Rightarrow> c | None \<Rightarrow> PStr ''Unknown'')))
      | None \<Rightarrow> voter_votes_txs ts votes)"

fun voter_votes_blocks :: "block list \<Rightarrow> (pyval \<rightharpoonup> pyval) \<Rightarrow> (pyval \<rightharpoonup> pyval)" where
  "voter_votes_blocks [] votes = votes"
| "voter_votes_blocks (b # bs) votes = voter_votes_blocks bs (voter_votes_txs (transactions b) votes)"

definition get_voter_votes :: "blockchain \<Rightarrow> (pyval \<rightharpoonup> pyval)" where
  "get_voter_votes self = voter_votes_blocks (chain self) Map.empty"

text \<open>\<^verbatim>\<open>get_vote_counts\<close> and the counting loop it shares with \<^verbatim>\<open>get_results\<close> of
  \<^verbatim>\<open>app.py\<close>: \<^verbatim>\<open>counts[candidate] = counts.get(candidate, 0) + 1\<close>.\<close>

fun count_txs :: "transaction list \<Rightarrow> (pyval \<rightharpoonup> nat) \<Rightarrow> (pyval \<rightharpoonup> nat)" where
  "count_txs [] counts = counts"
| "count_txs (t # ts) counts =
     (case lookup ''candidate'' t of
        Some candidate \<Rightarrow>
          count_txs ts (counts(candidate \<mapsto> (case counts candidate of None \<Rightarrow> 0 | Some k \<Rightarrow> k) + 1))
      | None \<Rightarrow> count_txs ts counts)"

fun count_blocks :: "block list \<Rightarrow> (pyval \<rightharpoonup> nat) \<Rightarrow> (pyval \<rightharpoonup> nat)" where
  "count_blocks [] counts = counts"
| "count_blocks (b # bs) counts = count_blocks bs (count_txs (transactions b) counts)"

definition get_vote_counts :: "blockchain \<Rightarrow> (pyval \<rightharpoonup> nat)" where
  "get_vote_counts self = count_blocks (chain self) Map.empty"

definition has_voter_voted :: "blockchain \<Rightarrow> string \<Rightarrow> bool" where
  "has_voter_voted self voter_id \<longleftrightarrow> get_voter_votes self (PStr voter_id) \<noteq> None"

section \<open>voting_system.py: class VotingSystem\<close>

record voter =
  token :: string
  voted :: bool

record voting_system =
  blockchain :: blockchain
  voters :: "string \<rightharpoonup> voter"
  candidates :: "string list"
  pending_votes :: "string \<rightharpoonup> transaction"

definition VotingSystem :: "lib \<Rightarrow> real \<Rightarrow> voting_system option" where
  "VotingSystem L now =
     (case Blockchain L now of
        None \<Rightarrow> None
      | Some bc \<Rightarrow>
          Some \<lparr>blockchain = bc, voters = Map.empty,
                candidates = [''Alice'', ''Bob'', ''Charlie'', ''Diana''],
                pending_votes = Map.empty\<rparr>)"

text \<open>\<^verbatim>\<open>register_voter\<close> raises on a known voter, and when the text to digest cannot be
  encoded: \<open>Inl\<close>, with the state as it was, since nothing is assigned before.\<close>

definition register_voter ::
  "lib \<Rightarrow> real \<Rightarrow> voting_system \<Rightarrow> string \<Rightarrow> exn + string \<times> voting_system" where
  "register_voter L now self voter_id =
     (if voters self voter_id \<noteq> None then Inl (Exception ''Voter already registered'')
      else case encode (voter_id @ str_float L now) of
        Inl e \<Rightarrow> Inl e
      | Inr bytes \<Rightarrow>
          (let tok = take 12 (sha256_hexdigest L bytes) in
           Inr (tok, self\<lparr>voters := (voters self)(voter_id \<mapsto> \<lparr>token = tok, voted = False\<rparr>)\<rparr>)))"

definition verify_token :: "voting_system \<Rightarrow> string \<Rightarrow> string \<Rightarrow> bool" where
  "verify_token self voter_id tok \<longleftrightarrow>
     (case voters self voter_id of None \<Rightarrow> False | Some v \<Rightarrow> token v = tok)"

definition vote_transaction :: "string \<Rightarrow> string \<Rightarrow> real \<Rightarrow> transaction" where
  "vote_transaction voter_id candidate now =
     Dict [(''type'', PStr ''vote''), (''voter_id'', PStr voter_id),
           (''candidate'', PStr candidate), (''timestamp'', PFloat now)]"

definition msg_not_registered :: string where
  "msg_not_registered = ''Voter not registered''"

definition msg_invalid_token :: string where
  "msg_invalid_token = ''Invalid token''"

definition msg_invalid_candidate :: string where
  "msg_invalid_candidate = ''Invalid candidate''"

definition msg_already_voted :: string where
  "msg_already_voted = ''Voter has already cast a vote''"

definition msg_vote_cast :: string where
  "msg_vote_cast = ''Vote cast successfully! It will be added to blockchain when mined.''"

definition cast_vote ::
  "real \<Rightarrow> voting_system \<Rightarrow> string \<Rightarrow> string \<Rightarrow> string \<Rightarrow> string \<times> voting_system" where
  "cast_vote now self voter_id tok candidate =
     (case voters self voter_id of
        None \<Rightarrow> (msg_not_registered, self)
      | Some v \<Rightarrow>
          if \<not> verify_token self voter_id tok then (msg_invalid_token, self)
          else if candidate \<notin> set (candidates self) then (msg_invalid_candidate, self)
          else
            (let has_voted_in_blockchain = has_voter_voted (blockchain self) voter_id;
                 has_voted_pending = (pending_votes self voter_id \<noteq> None)
             in if voted v \<or> has_voted_in_blockchain \<or> has_voted_pending
                then (msg_already_voted, self)
                else
                  (let tx = vote_transaction voter_id candidate now in
                   (msg_vote_cast,
                    self\<lparr>pending_votes := (pending_votes self)(voter_id \<mapsto> tx),
                         blockchain := snd (add_transaction (blockchain self) tx),
                         voters := (voters self)(voter_id \<mapsto> v\<lparr>voted := True\<rparr>)\<rparr>))))"

definition mine_votes ::
  "lib \<Rightarrow> real \<Rightarrow> voting_system \<Rightarrow> (exn + string \<times> voting_system) option" where
  "mine_votes L now self =
     (case mine_pending_transactions L now (blockchain self) of
        None \<Rightarrow> None
      | Some (Inl e) \<Rightarrow> Some (Inl e)
      | Some (Inr (success, bc)) \<Rightarrow>
          if success
          then Some (Inr (''Votes mined successfully!'',
                          self\<lparr>blockchain := bc, pending_votes := Map.empty\<rparr>))
          else Some (Inr (''No votes to mine'', self\<lparr>blockchain := bc\<rparr>)))"

definition get_results :: "voting_system \<Rightarrow> (pyval \<rightharpoonup> nat)" where
  "get_results self = get_vote_counts (blockchain self)"


section \<open>app.py: classes Blockchain and VotingSystem\<close>

record app_blockchain =
  app_chain :: "block list"
  app_difficulty :: int
  app_pending_transactions :: "transaction list"
  voted_voters :: "string set"

definition app_create_genesis_block ::
  "lib \<Rightarrow> real \<Rightarrow> app_blockchain \<Rightarrow> app_blockchain option" where
  "app_create_genesis_block L now self =
     (case mine_block L (app_difficulty self)
             (Block L 0 [Dict [(''message'', PStr ''Genesis Block'')]] now ''0'') of
        None \<Rightarrow> None
      | Some genesis \<Rightarrow> Some (self\<lparr>app_chain := app_chain self @ [genesis]\<rparr>))"

definition app_Blockchain :: "lib \<Rightarrow> real \<Rightarrow> app_blockchain option" where
  "app_Blockchain L now =
     app_create_genesis_block L now
       \<lparr>app_chain = [], app_difficulty = 2, app_pending_transactions = [], voted_voters = {}\<rparr>"

definition app_get_latest_block :: "app_blockchain \<Rightarrow> exn + block" where
  "app_get_latest_block self =
     (if app_chain self = [] then Inl IndexError else Inr (last (app_chain self)))"

definition add_vote ::
  "real \<Rightarrow> app_blockchain \<Rightarrow> string \<Rightarrow> string \<Rightarrow> (bool \<times> string) \<times> app_blockchain" where
  "add_vote now self voter_id candidate =
     (if voter_id \<in> voted_voters self then ((False, ''This voter has already voted''), self)
      else
        ((True, ''Vote added successfully''),
         self\<lparr>app_pending_transactions :=
                 app_pending_transactions self @ [vote_transaction voter_id candidate now],
              voted_voters := insert voter_id (voted_voters self)\<rparr>))"

definition app_mine_pending_transactions ::
  "lib \<Rightarrow> real \<Rightarrow> app_blockchain \<Rightarrow> (exn + (bool \<times> string) \<times> app_blockchain) option" where
  "app_mine_pending_transactions L now self =
     (if app_pending_transactions self = [] then Some (Inr ((False, ''No votes to mine''), self))
      else case app_get_latest_block self of
        Inl e \<Rightarrow> Some (Inl e)
      | Inr latest \<Rightarrow>
          (case mine_block L (app_difficulty self)
                  (Block L (length (app_chain self)) (app_pending_transactions self) now
                     (hash latest)) of
             None \<Rightarrow> None
           | Some new_block \<Rightarrow>
               (let mined_count = length (app_pending_transactions self) in
                Some (Inr ((True, ''Mined '' @ str_nat mined_count @ '' votes into block #''
                                    @ str_nat (index new_block)),
                           self\<lparr>app_chain := app_chain self @ [new_block],
                                app_pending_transactions := []\<rparr>)))))"

text \<open>\<^verbatim>\<open>get_results\<close>: the blocks of \<^verbatim>\<open>self.chain[1:]\<close>, then the pending votes.\<close>

definition app_get_results :: "app_blockchain \<Rightarrow> (pyval \<rightharpoonup> nat)" where
  "app_get_results self =
     count_txs (app_pending_transactions self) (count_blocks (drop 1 (app_chain self)) Map.empty)"

definition validate_voter :: "app_blockchain \<Rightarrow> string \<Rightarrow> bool" where
  "validate_voter self voter_id \<longleftrightarrow> voter_id \<notin> voted_voters self"

function app_is_chain_valid_from :: "lib \<Rightarrow> block list \<Rightarrow> nat \<Rightarrow> bool" where
  "app_is_chain_valid_from L c i =
     (if i < length c then
        (let current = c ! i; previous = c ! (i - 1) in
         if hash current \<noteq> calculate_hash L current then False
         else if previous_hash current \<noteq> hash previous then False
         else app_is_chain_valid_from L c (i + 1))
      else True)"
  by pat_completeness auto
termination
  by (relation "measure (\<lambda>(L, c, i). length c - i)") auto

declare app_is_chain_valid_from.simps [simp del]

definition app_is_chain_valid :: "lib \<Rightarrow> app_blockchain \<Rightarrow> bool" where
  "app_is_chain_valid L self = app_is_chain_valid_from L (app_chain self) 1"

record app_voting_system =
  app_blockchain :: app_blockchain
  registered_voters :: "string \<rightharpoonup> string"
  app_candidates :: "string list"

definition app_VotingSystem :: "lib \<Rightarrow> real \<Rightarrow> app_voting_system option" where
  "app_VotingSystem L now =
     (case app_Blockchain L now of
        None \<Rightarrow> None
      | Some bc \<Rightarrow>
          Some \<lparr>app_blockchain = bc, registered_voters = Map.empty,
                app_candidates = [''Alice'', ''Bob'', ''Charlie'', ''Diana'', ''Edward'']\<rparr>)"

text \<open>\<^verbatim>\<open>register_voter\<close> of \<^verbatim>\<open>app.py\<close> returns the triple
  \<^verbatim>\<open>(success, message, token)\<close>, the token being \<^verbatim>\<open>None\<close> on failure; it raises when
  the text to digest cannot be encoded, before anything is assigned.\<close>

definition app_register_voter ::
  "lib \<Rightarrow> real \<Rightarrow> app_voting_system \<Rightarrow> string
     \<Rightarrow> exn + (bool \<times> string \<times> string option) \<times> app_voting_system" where
  "app_register_voter L now self voter_id =
     (if registered_voters self voter_id \<noteq> None
      then Inr ((False, ''Voter already registered'', None), self)
      else case encode (voter_id @ str_float L now) of
        Inl e \<Rightarrow> Inl e
      | Inr bytes \<Rightarrow>
          (let tok = take 12 (sha256_hexdigest L bytes) in
           Inr ((True, ''Registration successful'', Some tok),
                self\<lparr>registered_voters := (registered_voters self)(voter_id \<mapsto> tok)\<rparr>)))"

definition verify_voter :: "app_voting_system \<Rightarrow> string \<Rightarrow> string \<Rightarrow> bool \<times> string" where
  "verify_voter self voter_id tok =
     (if registered_voters self voter_id = None then (False, ''Voter not registered'')
      else if registered_voters self voter_id \<noteq> Some tok then (False, ''Invalid token'')
      else (True, ''Verification successful''))"

definition app_cast_vote ::
  "real \<Rightarrow> app_voting_system \<Rightarrow> string \<Rightarrow> string \<Rightarrow> string
     \<Rightarrow> (bool \<times> string) \<times> app_voting_system" where
  "app_cast_vote now self voter_id tok candidate =
     (let (is_valid, message) = verify_voter self voter_id tok in
      if \<not> is_valid then ((False, message), self)
      else if candidate \<notin> set (app_candidates self)
      then ((False, ''Invalid candidate. Choose from: '' @ join '', '' (app_candidates self)), self)
      else
        (let (r, bc) = add_vote now (app_blockchain self) voter_id candidate in
         (r, self\<lparr>app_blockchain := bc\<rparr>)))"

definition app_mine_votes ::
  "lib \<Rightarrow> real \<Rightarrow> app_voting_system \<Rightarrow> (exn + (bool \<times> string) \<times> app_voting_system) option" where
  "app_mine_votes L now self =
     (case app_mine_pending_transactions L now (app_blockchain self) of
        None \<Rightarrow> None
      | Some (Inl e) \<Rightarrow> Some (Inl e)
      | Some (Inr (r, bc)) \<Rightarrow> Some (Inr (r, self\<lparr>app_blockchain := bc\<rparr>)))"

definition app_VotingSystem_get_results :: "app_voting_system \<Rightarrow> (pyval \<rightharpoonup> nat)" where
  "app_VotingSystem_get_results self = app_get_results (app_blockchain self)"

section \<open>Reachable states\<close>

text \<open>The states a voting system reaches from a fresh one through its own operations:
  registration, casting a vote and mining. An operation that raises or does not
  return leaves no new state.\<close>

inductive reachable :: "lib \<Rightarrow> voting_system \<Rightarrow> bool" for L :: lib where
  fresh: "VotingSystem L now = Some s \<Longrightarrow> reachable L s"
| register: "reachable L s \<Longrightarrow> register_voter L now s voter_id = Inr (tok, s') \<Longrightarrow> reachable L s'"
| cast: "reachable L s \<Longrightarrow> cast_vote now s voter_id tok candidate = (msg, s') \<Longrightarrow> reachable L s'"
| mine: "reachable L s \<Longrightarrow> mine_votes L now s = Some (Inr (msg, s')) \<Longrightarrow> reachable L s'"

inductive app_reachable :: "lib \<Rightarrow> app_voting_system \<Rightarrow> bool" for L :: lib where
  app_fresh: "app_VotingSystem L now = Some s \<Longrightarrow> app_reachable L s"
| app_register:
    "app_reachable L s \<Longrightarrow> app_register_voter L now s voter_id = Inr (r, s') \<Longrightarrow>
       app_reachable L s'"
| app_cast:
    "app_reachable L s \<Longrightarrow> app_cast_vote now s voter_id tok candidate = (r, s') \<Longrightarrow> app_reachable L s'"
| app_mine:
    "app_reachable L s \<Longrightarrow> app_mine_votes L now s = Some (Inr (r, s')) \<Longrightarrow> app_reachable L s'"

section \<open>Notions used to state the properties\<close>

text \<open>A block whose stored hash is the digest of its stored fields.\<close>

definition hash_consistent :: "lib \<Rightarrow> block \<Rightarrow> bool" where
  "hash_consistent L b \<longleftrightarrow> hash b = calculate_hash L b"

text \<open>The block that the proof-of-work loop holds when its nonce is \<open>n\<close>, and the nonces
  at which the loop guard is false.\<close>

definition with_nonce :: "lib \<Rightarrow> block \<Rightarrow> nat \<Rightarrow> block" where
  "with_nonce L b n = (let b1 = b\<lparr>nonce := n\<rparr> in b1\<lparr>hash := calculate_hash L b1\<rparr>)"

definition solves :: "lib \<Rightarrow> int \<Rightarrow> block \<Rightarrow> nat \<Rightarrow> bool" where
  "solves L d b n \<longleftrightarrow> \<not> target_unmet d (with_nonce L b n)"

text \<open>The number of leading \<^verbatim>\<open>0\<close> characters of a hexadecimal digest.\<close>

definition leading_zeros :: "string \<Rightarrow> nat" where
  "leading_zeros h = length (takeWhile (\<lambda>c. c = CHR ''0'') h)"

text \<open>The transactions of a list of blocks, in chain order, and the number of records in
  a list of transactions that name a candidate, or that are attributable to a voter.\<close>

definition mined_transactions :: "block list \<Rightarrow> transaction list" where
  "mined_transactions bs = concat (map transactions bs)"

definition votes_for :: "pyval \<Rightarrow> transaction list \<Rightarrow> nat" where
  "votes_for c txs = length (filter (\<lambda>t. lookup ''candidate'' t = Some c) txs)"

definition records_of :: "string \<Rightarrow> transaction list \<Rightarrow> nat" where
  "records_of voter_id txs = length (filter (\<lambda>t. lookup ''voter_id'' t = Some (PStr voter_id)) txs)"

text \<open>A tally as the dict that holds exactly the keys with a positive count.\<close>

definition tally_of :: "(pyval \<Rightarrow> nat) \<Rightarrow> (pyval \<rightharpoonup> nat)" where
  "tally_of n = (\<lambda>c. if n c = 0 then None else Some (n c))"

text \<open>The values found under \<^verbatim>\<open>voter_id\<close> in a list of transactions.\<close>

definition voter_ids :: "transaction list \<Rightarrow> pyval set" where
  "voter_ids txs = set (List.map_filter (lookup ''voter_id'') txs)"

text \<open>Every record of a ledger: those of the mined blocks, then the pending pool.\<close>

definition all_transactions :: "blockchain \<Rightarrow> transaction list" where
  "all_transactions bc = mined_transactions (chain bc) @ pending_transactions bc"

definition app_all_transactions :: "app_blockchain \<Rightarrow> transaction list" where
  "app_all_transactions bc = mined_transactions (app_chain bc) @ app_pending_transactions bc"

text \<open>The invariants of the two voting systems: the chain starts with the genesis block,
  no voter has more than one record, a voter with a record is marked as having voted,
  and (in \<^verbatim>\<open>voting_system.py\<close>) the dict \<^verbatim>\<open>pending_votes\<close> holds exactly the pending
  records, each under its voter.\<close>

definition system_inv :: "voting_system \<Rightarrow> bool" where
  "system_inv s \<longleftrightarrow>
     (\<exists>g rest. chain (blockchain s) = g # rest \<and> transactions g = [Str ''Genesis Block'']) \<and>
     (\<forall>v. records_of v (all_transactions (blockchain s)) \<le> 1) \<and>
     (\<forall>v. 0 < records_of v (all_transactions (blockchain s)) \<longrightarrow>
          (\<exists>r. voters s v = Some r \<and> voted r)) \<and>
     PStr ` dom (pending_votes s) = voter_ids (pending_transactions (blockchain s)) \<and>
     (\<forall>v t. pending_votes s v = Some t \<longrightarrow>
          t \<in> set (pending_transactions (blockchain s)) \<and> lookup ''voter_id'' t = Some (PStr v))"

definition app_system_inv :: "app_voting_system \<Rightarrow> bool" where
  "app_system_inv a \<longleftrightarrow>
     (\<exists>g rest. app_chain (app_blockchain a) = g # rest \<and>
          transactions g = [Dict [(''message'', PStr ''Genesis Block'')]]) \<and>
     (\<forall>v. records_of v (app_all_transactions (app_blockchain a)) \<le> 1) \<and>
     (\<forall>v. 0 < records_of v (app_all_transactions (app_blockchain a)) \<longrightarrow>
          v \<in> voted_voters (app_blockchain a))"

text \<open>Validation of a chain, in the words of the specification: index \<open>i\<close> fails when the
  recomputed digest of block \<open>i\<close> differs from its stored hash, or when its previous hash
  differs from the hash stored in block \<open>i - 1\<close>; the first failure is the least failing
  index from 1 on; the line printed names the index and the kind of mismatch, the hash
  mismatch first.\<close>

definition hash_mismatch :: "lib \<Rightarrow> block list \<Rightarrow> nat \<Rightarrow> bool" where
  "hash_mismatch L c i \<longleftrightarrow> hash (c ! i) \<noteq> calculate_hash L (c ! i)"

definition link_mismatch :: "block list \<Rightarrow> nat \<Rightarrow> bool" where
  "link_mismatch c i \<longleftrightarrow> previous_hash (c ! i) \<noteq> hash (c ! (i - 1))"

definition fails_at :: "lib \<Rightarrow> block list \<Rightarrow> nat \<Rightarrow> bool" where
  "fails_at L c i \<longleftrightarrow> hash_mismatch L c i \<or> link_mismatch c i"

definition first_failure :: "lib \<Rightarrow> block list \<Rightarrow> nat option" where
  "first_failure L c = List.find (fails_at L c) [1..<length c]"

definition report :: "lib \<Rightarrow> block list \<Rightarrow> nat \<Rightarrow> string" where
  "report L c i =
     (if hash_mismatch L c i then ''Block '' @ str_nat i @ '' hash is invalid!''
      else ''Block '' @ str_nat i @ '' previous hash doesn't match!'')"

section \<open>A small instance for concrete evaluation\<close>

text \<open>Stand-ins for the library functions, small enough to evaluate by rewriting: the
  serialisation keeps the index and the nonce in unary, and the digest starts with
  \<^verbatim>\<open>00\<close> for one length in three.\<close>

definition demo_lib :: lib where
  "demo_lib =
     \<lparr>sha256_hexdigest = (\<lambda>s. (if length s mod 3 = 2 then ''00'' else ''ff'') @ s),
      json_dumps = (\<lambda>(i, txs, ts, prev, n). replicate i CHR ''i'' @ replicate n CHR ''n''),
      str_float = (\<lambda>t. ''t'')\<rparr>"

definition demo_genesis :: block where
  "demo_genesis =
     \<lparr>index = 0, transactions = [Str ''Genesis Block''], timestamp = 1, previous_hash = ''0'',
      nonce = 2, hash = ''00nn''\<rparr>"

text \<open>A run of \<^verbatim>\<open>voting_system.py\<close>: a fresh system at time 1, voter \<^verbatim>\<open>V1\<close> registered
  at time 2, a vote for Alice cast at time 3, and the pool mined at time 4.\<close>

definition demo_s0 :: voting_system where
  "demo_s0 =
     \<lparr>blockchain = \<lparr>chain = [demo_genesis], difficulty = 2, pending_transactions = []\<rparr>,
      voters = Map.empty,
      candidates = [''Alice'', ''Bob'', ''Charlie'', ''Diana''],
      pending_votes = Map.empty\<rparr>"

definition demo_s1 :: voting_system where
  "demo_s1 = demo_s0\<lparr>voters := [''V1'' \<mapsto> \<lparr>token = ''ffV1t'', voted = False\<rparr>]\<rparr>"

definition demo_s2 :: voting_system where
  "demo_s2 =
     \<lparr>blockchain = \<lparr>chain = [demo_genesis], difficulty = 2,
                     pending_transactions = [vote_transaction ''V1'' ''Alice'' 3]\<rparr>,
      voters = [''V1'' \<mapsto> \<lparr>token = ''ffV1t'', voted = True\<rparr>],
      candidates = [''Alice'', ''Bob'', ''Charlie'', ''Diana''],
      pending_votes = [''V1'' \<mapsto> vote_transaction ''V1'' ''Alice'' 3]\<rparr>"

definition demo_block1 :: block where
  "demo_block1 =
     \<lparr>index = 1, transactions = [vote_transaction ''V1'' ''Alice'' 3], timestamp = 4,
      previous_hash = ''00nn'', nonce = 1, hash = ''00in''\<rparr>"

definition demo_s3 :: voting_system where
  "demo_s3 =
     \<lparr>blockchain = \<lparr>chain = [demo_genesis, demo_block1], difficulty = 2,
                     pending_transactions = []\<rparr>,
      voters = [''V1'' \<mapsto> \<lparr>token = ''ffV1t'', voted = True\<rparr>],
      candidates = [''Alice'', ''Bob'', ''Charlie'', ''Diana''],
      pending_votes = Map.empty\<rparr>"

text \<open>The same run of \<^verbatim>\<open>app.py\<close>.\<close>

definition demo_app_genesis :: block where
  "demo_app_genesis = demo_genesis\<lparr>transactions := [Dict [(''message'', PStr ''Genesis Block'')]]\<rparr>"

definition demo_a0 :: app_voting_system where
  "demo_a0 =
     \<lparr>app_blockchain = \<lparr>app_chain = [demo_app_genesis], app_difficulty = 2,
                         app_pending_transactions = [], voted_voters = {}\<rparr>,
      registered_voters = Map.empty,
      app_candidates = [''Alice'', ''Bob'', ''Charlie'', ''Diana'', ''Edward'']\<rparr>"

definition demo_a1 :: app_voting_system where
  "demo_a1 = demo_a0\<lparr>registered_voters := [''V1'' \<mapsto> ''ffV1t'']\<rparr>"

definition demo_a2 :: app_voting_system where
  "demo_a2 =
     \<lparr>app_blockchain = \<lparr>app_chain = [demo_app_genesis], app_difficulty = 2,
                         app_pending_transactions = [vote_transaction ''V1'' ''Alice'' 3],
                         voted_voters = {''V1''}\<rparr>,
      registered_voters = [''V1'' \<mapsto> ''ffV1t''],
      app_candidates = [''Alice'', ''Bob'', ''Charlie'', ''Diana'', ''Edward'']\<rparr>"

definition demo_a3 :: app_voting_system where
  "demo_a3 =
     \<lparr>app_blockchain = \<lparr>app_chain = [demo_app_genesis, demo_block1], app_difficulty = 2,
                         app_pending_transactions = [], voted_voters = {''V1''}\<rparr>,
      registered_voters = [''V1'' \<mapsto> ''ffV1t''],
      app_candidates = [''Alice'', ''Bob'', ''Charlie'', ''Diana'', ''Edward'']\<rparr>"

text \<open>A third block, as mined at time 7 from a vote of a second voter cast at time 6.\<close>

definition demo_block2 :: block where
  "demo_block2 =
     \<lparr>index = 2, transactions = [vote_transaction ''V2'' ''Bob'' 6], timestamp = 7,
      previous_hash = ''00in'', nonce = 0, hash = ''00ii''\<rparr>"

text \<open>The voter id that is the code point U+D800 alone, a surrogate.\<close>

definition demo_surrogate_id :: string where
  "demo_surrogate_id = [CHR 0xED, CHR 0xA0, CHR 0x80]"

section \<open>Proof-of-work\<close>

lemma calculate_hash_hash_update [simp]:
  "calculate_hash L (b\<lparr>hash := h\<rparr>) = calculate_hash L b"
  by (simp add: calculate_hash_def)

lemma hash_consistent_Block [simp]: "hash_consistent L (Block L i txs ts prev)"
  by (simp add: hash_consistent_def Block_def Let_def calculate_hash_def)

lemma Block_fields [simp]:
  "index (Block L i txs ts prev) = i"
  "transactions (Block L i txs ts prev) = txs"
  "timestamp (Block L i txs ts prev) = ts"
  "previous_hash (Block L i txs ts prev) = prev"
  "nonce (Block L i txs ts prev) = 0"
  by (simp_all add: Block_def Let_def)

lemma hash_consistent_mine_step [simp]: "hash_consistent L (mine_step L b)"
  by (simp add: hash_consistent_def mine_step_def Let_def)

lemma mine_step_fields [simp]:
  "index (mine_step L b) = index b"
  "transactions (mine_step L b) = transactions b"
  "timestamp (mine_step L b) = timestamp b"
  "previous_hash (mine_step L b) = previous_hash b"
  "nonce (mine_step L b) = nonce b + 1"
  by (simp_all add: mine_step_def Let_def)

text \<open>What holds whenever the loop returns: only the nonce and the hash have changed,
  the guard is false, and either the loop body never ran or the hash is fresh.\<close>

lemma mine_block_post:
  assumes "mine_block L d b = Some b'"
  shows "index b' = index b \<and> transactions b' = transactions b \<and> timestamp b' = timestamp b \<and>
     previous_hash b' = previous_hash b \<and> nonce b \<le> nonce b' \<and> \<not> target_unmet d b' \<and>
     (b' = b \<or> hash_consistent L b')"
proof (rule mine_block.raw_induct
    [where P = "\<lambda>L d b b'. index b' = index b \<and> transactions b' = transactions b \<and>
       timestamp b' = timestamp b \<and> previous_hash b' = previous_hash b \<and>
       nonce b \<le> nonce b' \<and> \<not> target_unmet d b' \<and> (b' = b \<or> hash_consistent L b')",
     OF _ assms])
  fix f :: "lib \<Rightarrow> int \<Rightarrow> block \<Rightarrow> block option" and L d b b'
  assume IH: "\<And>L d b b'. f L d b = Some b' \<Longrightarrow>
      index b' = index b \<and> transactions b' = transactions b \<and>
      timestamp b' = timestamp b \<and> previous_hash b' = previous_hash b \<and>
      nonce b \<le> nonce b' \<and> \<not> target_unmet d b' \<and> (b' = b \<or> hash_consistent L b')"
    and eq: "(if target_unmet d b then f L d (mine_step L b) else Some b) = Some b'"
  show "index b' = index b \<and> transactions b' = transactions b \<and>
      timestamp b' = timestamp b \<and> previous_hash b' = previous_hash b \<and>
      nonce b \<le> nonce b' \<and> \<not> target_unmet d b' \<and> (b' = b \<or> hash_consistent L b')"
  proof (cases "target_unmet d b")
    case True
    with eq have "f L d (mine_step L b) = Some b'" by simp
    from IH[OF this] show ?thesis by auto
  next
    case False
    with eq show ?thesis by simp
  qed
qed

lemma mine_block_consistent:
  "mine_block L d b = Some b' \<Longrightarrow> hash_consistent L b \<Longrightarrow> hash_consistent L b'"
  using mine_block_post by blast

lemma with_nonce_self: "hash_consistent L b \<Longrightarrow> with_nonce L b (nonce b) = b"
  by (simp add: with_nonce_def hash_consistent_def Let_def)

lemma with_nonce_mine_step [simp]: "with_nonce L (mine_step L b) n = with_nonce L b n"
  by (simp add: with_nonce_def mine_step_def Let_def calculate_hash_def)

text \<open>The loop returns as soon as some nonce from the current one on solves the puzzle.\<close>

lemma mine_block_total:
  "hash_consistent L b \<Longrightarrow> nonce b \<le> n \<Longrightarrow> solves L d b n \<Longrightarrow>
     \<exists>b'. mine_block L d b = Some b' \<and> nonce b' \<le> n"
proof (induction "n - nonce b" arbitrary: b)
  case 0
  then have "nonce b = n" by simp
  with 0 have "\<not> target_unmet d b" by (metis solves_def with_nonce_self)
  then show ?case using \<open>nonce b = n\<close> by (subst mine_block.simps) simp
next
  case (Suc k)
  show ?case
  proof (cases "target_unmet d b")
    case False
    then show ?thesis using Suc.prems by (subst mine_block.simps) simp
  next
    case True
    have "\<exists>b'. mine_block L d (mine_step L b) = Some b' \<and> nonce b' \<le> n"
      using Suc by (intro Suc.hyps(1)) (auto simp: solves_def)
    then show ?thesis using True by (subst mine_block.simps) simp
  qed
qed

lemma str_mul_zero: "str_mul ''0'' d = replicate (nat d) CHR ''0''"
  by (induction "nat d" arbitrary: d) (auto simp: str_mul_def)

lemma target_met_leading_zeros:
  assumes "\<not> target_unmet d b"
  shows "d \<le> int (leading_zeros (hash b))"
proof (cases "0 \<le> d")
  case False
  then show ?thesis by simp
next
  case True
  with assms have t: "take (nat d) (hash b) = replicate (nat d) CHR ''0''"
    by (simp add: target_unmet_def slice_to_def str_mul_zero)
  have "hash b = replicate (nat d) CHR ''0'' @ drop (nat d) (hash b)"
    by (metis append_take_drop_id t)
  then have "leading_zeros (hash b) =
      length (takeWhile (\<lambda>c. c = CHR ''0'') (replicate (nat d) CHR ''0'' @ drop (nat d) (hash b)))"
    by (simp add: leading_zeros_def)
  also have "\<dots> = nat d + length (takeWhile (\<lambda>c. c = CHR ''0'') (drop (nat d) (hash b)))"
    by (subst takeWhile_append2) simp_all
  also have "\<dots> \<ge> nat d" by simp
  finally show ?thesis using True by linarith
qed

text \<open>Mining a freshly constructed block: it returns when some nonce solves the puzzle,
  and then the result has every property of a mined block.\<close>

lemma mine_fresh_block:
  assumes "solves L d (Block L i txs ts prev) n"
  shows "\<exists>b'. mine_block L d (Block L i txs ts prev) = Some b' \<and>
           index b' = i \<and> transactions b' = txs \<and> timestamp b' = ts \<and> previous_hash b' = prev \<and>
           hash_consistent L b' \<and> d \<le> int (leading_zeros (hash b'))"
proof -
  obtain b' where m: "mine_block L d (Block L i txs ts prev) = Some b'"
    using mine_block_total[of L "Block L i txs ts prev" n d] assms by auto
  from mine_block_post[OF m] mine_block_consistent[OF m] target_met_leading_zeros[of d b']
  show ?thesis using m by simp
qed

lemma mine_block_Block_post:
  assumes m: "mine_block L d (Block L i txs ts prev) = Some b'"
  shows "index b' = i \<and> transactions b' = txs \<and> timestamp b' = ts \<and> previous_hash b' = prev \<and>
         hash b' = calculate_hash L b' \<and> d \<le> int (leading_zeros (hash b'))"
proof -
  have "hash_consistent L b'"
    using mine_block_consistent[OF m] by simp
  then show ?thesis
    using mine_block_post[OF m] target_met_leading_zeros[of d b']
    by (simp add: hash_consistent_def)
qed

subsection \<open>Evaluation on the small instance\<close>

lemma demo_calculate_hash:
  "calculate_hash demo_lib b =
     (if (index b + nonce b) mod 3 = 2 then ''00'' else ''ff'')
       @ replicate (index b) CHR ''i'' @ replicate (nonce b) CHR ''n''"
  by (simp add: calculate_hash_def demo_lib_def)

lemma mine_block_unmet: "target_unmet d b \<Longrightarrow> mine_block L d b = mine_block L d (mine_step L b)"
  by (subst mine_block.simps) simp

lemma mine_block_met: "\<not> target_unmet d b \<Longrightarrow> mine_block L d b = Some b"
  by (subst mine_block.simps) simp

lemma target_unmet_2: "target_unmet 2 b \<longleftrightarrow> take 2 (hash b) \<noteq> ''00''"
  by (simp add: target_unmet_def slice_to_def str_mul_def eval_nat_numeral)

lemmas demo_eval =
  mine_block_unmet mine_block_met target_unmet_2 demo_calculate_hash mine_step_def Block_def

lemma demo_mine_genesis:
  "mine_block demo_lib 2 (Block demo_lib 0 [Str ''Genesis Block''] 1 ''0'') = Some demo_genesis"
  by (simp add: demo_eval demo_genesis_def)

subsection \<open>The two runs on the small instance\<close>

lemma demo_mine_app_genesis:
  "mine_block demo_lib 2 (Block demo_lib 0 [Dict [(''message'', PStr ''Genesis Block'')]] 1 ''0'')
     = Some demo_app_genesis"
  by (simp add: demo_eval demo_app_genesis_def demo_genesis_def)

lemma demo_mine_block1:
  "mine_block demo_lib 2 (Block demo_lib (Suc (Suc 0) - 1) [vote_transaction ''V1'' ''Alice'' 3] 4 ''00nn'')
     = Some demo_block1"
  by (simp add: demo_eval demo_block1_def)

lemma demo_fresh: "VotingSystem demo_lib 1 = Some demo_s0"
  by (simp add: VotingSystem_def Blockchain_def create_genesis_block_def demo_mine_genesis
      demo_s0_def)

lemma demo_register: "register_voter demo_lib 2 demo_s0 ''V1'' = Inr (''ffV1t'', demo_s1)"
  by (simp add: register_voter_def encode_def demo_s0_def demo_s1_def demo_lib_def Let_def)

lemma demo_cast:
  "cast_vote 3 demo_s1 ''V1'' ''ffV1t'' ''Alice'' = (msg_vote_cast, demo_s2)"
  by (simp add: cast_vote_def verify_token_def has_voter_voted_def get_voter_votes_def
      add_transaction_def demo_s0_def demo_s1_def demo_s2_def demo_genesis_def Let_def)

lemma demo_mine: "mine_votes demo_lib 4 demo_s2 = Some (Inr (''Votes mined successfully!'', demo_s3))"
  using demo_mine_block1
  by (simp add: mine_votes_def mine_pending_transactions_def get_latest_block_def
      demo_s2_def demo_s3_def demo_genesis_def)

lemma demo_reachable:
  "reachable demo_lib demo_s0" "reachable demo_lib demo_s1"
  "reachable demo_lib demo_s2" "reachable demo_lib demo_s3"
proof -
  show r0: "reachable demo_lib demo_s0" by (rule reachable.fresh[OF demo_fresh])
  show r1: "reachable demo_lib demo_s1" by (rule reachable.register[OF r0 demo_register])
  show r2: "reachable demo_lib demo_s2" by (rule reachable.cast[OF r1 demo_cast])
  show "reachable demo_lib demo_s3" by (rule reachable.mine[OF r2 demo_mine])
qed

lemma demo_app_fresh: "app_VotingSystem demo_lib 1 = Some demo_a0"
  by (simp add: app_VotingSystem_def app_Blockchain_def app_create_genesis_block_def
      demo_mine_app_genesis demo_a0_def)

lemma demo_app_register:
  "app_register_voter demo_lib 2 demo_a0 ''V1''
     = Inr ((True, ''Registration successful'', Some ''ffV1t''), demo_a1)"
  by (simp add: app_register_voter_def encode_def demo_a0_def demo_a1_def demo_lib_def Let_def)

lemma demo_app_cast:
  "app_cast_vote 3 demo_a1 ''V1'' ''ffV1t'' ''Alice'' = ((True, ''Vote added successfully''), demo_a2)"
  by (simp add: app_cast_vote_def verify_voter_def add_vote_def demo_a0_def demo_a1_def
      demo_a2_def)

lemma demo_app_mine:
  "app_mine_votes demo_lib 4 demo_a2
     = Some (Inr ((True, ''Mined 1 votes into block #1''), demo_a3))"
  using demo_mine_block1
  by (simp add: app_mine_votes_def app_mine_pending_transactions_def app_get_latest_block_def
      demo_a2_def demo_a3_def demo_app_genesis_def demo_genesis_def demo_block1_def
      str_nat.simps digit_char_def)

lemma demo_app_reachable:
  "app_reachable demo_lib demo_a0" "app_reachable demo_lib demo_a1"
  "app_reachable demo_lib demo_a2" "app_reachable demo_lib demo_a3"
proof -
  show r0: "app_reachable demo_lib demo_a0" by (rule app_reachable.app_fresh[OF demo_app_fresh])
  show r1: "app_reachable demo_lib demo_a1"
    by (rule app_reachable.app_register[OF r0 demo_app_register])
  show r2: "app_reachable demo_lib demo_a2" by (rule app_reachable.app_cast[OF r1 demo_app_cast])
  show "app_reachable demo_lib demo_a3" by (rule app_reachable.app_mine[OF r2 demo_app_mine])
qed

section \<open>Frame of the proof-of-work (claim C9)\<close>

text \<open>
  Claim C9 says that, for every block and every difficulty, \<^verbatim>\<open>Block.mine_block\<close> changes
  only the nonce and the hash, and that the hash it leaves is \<^verbatim>\<open>calculate_hash()\<close> of the
  final fields. The second half fails on a block whose stored hash is stale but already
  meets the target: the guard is false at once, the body never runs, and the stale hash
  stays. Such a block is what the tampering of scenario E leaves: below, the mined
  genesis block of the small instance with its nonce set to 7.
\<close>

theorem mine_block_stale_hash_counterexample:
  "mine_block demo_lib 2 (demo_genesis\<lparr>nonce := 7\<rparr>) = Some (demo_genesis\<lparr>nonce := 7\<rparr>) \<and>
   hash (demo_genesis\<lparr>nonce := 7\<rparr>) \<noteq> calculate_hash demo_lib (demo_genesis\<lparr>nonce := 7\<rparr>)"
  by (simp add: demo_eval demo_genesis_def)

text \<open>
  Claim C9, amended: for every block and every difficulty, whenever \<^verbatim>\<open>mine_block\<close>
  returns, the index, the transactions, the timestamp and the previous hash are the same
  as before; and if the stored hash was \<^verbatim>\<open>calculate_hash()\<close> of the fields on entry (as
  it is for every block the constructor returns), the resulting hash is
  \<^verbatim>\<open>calculate_hash()\<close> of the final fields.
\<close>

theorem mine_block_frame:
  "mine_block L d b = Some b' \<Longrightarrow>
     index b' = index b \<and> transactions b' = transactions b \<and>
     timestamp b' = timestamp b \<and> previous_hash b' = previous_hash b \<and>
     (hash b = calculate_hash L b \<longrightarrow> hash b' = calculate_hash L b')"
  using mine_block_post[of L d b b'] by (auto simp: hash_consistent_def)

theorem mine_block_frame_witness:
  "mine_block demo_lib 2 (Block demo_lib 0 [Str ''Genesis Block''] 1 ''0'') = Some demo_genesis \<and>
   hash (Block demo_lib 0 [Str ''Genesis Block''] 1 ''0'')
     = calculate_hash demo_lib (Block demo_lib 0 [Str ''Genesis Block''] 1 ''0'') \<and>
   index demo_genesis = 0 \<and> transactions demo_genesis = [Str ''Genesis Block''] \<and>
   timestamp demo_genesis = 1 \<and> previous_hash demo_genesis = ''0'' \<and>
   nonce demo_genesis = 2 \<and> hash demo_genesis = calculate_hash demo_lib demo_genesis"
proof -
  have h: "hash (Block demo_lib 0 [Str ''Genesis Block''] 1 ''0'')
      = calculate_hash demo_lib (Block demo_lib 0 [Str ''Genesis Block''] 1 ''0'')"
    using hash_consistent_Block by (simp only: hash_consistent_def)
  have "hash demo_genesis = calculate_hash demo_lib demo_genesis"
    using mine_block_frame[OF demo_mine_genesis] h by blast
  then show ?thesis
    using h demo_mine_genesis by (simp add: demo_genesis_def)
qed

section \<open>Mining an empty pool (claim C5)\<close>

text \<open>
  Claim C5: in every state whose pending pool is empty, \<^verbatim>\<open>mine_pending_transactions\<close>
  returns its failure result (\<^verbatim>\<open>False\<close> in \<^verbatim>\<open>blockchain.py\<close>, the pair
  \<^verbatim>\<open>(False, "No votes to mine")\<close> in \<^verbatim>\<open>app.py\<close>) and leaves the chain and the pool,
  indeed the whole state, as they were; so does \<^verbatim>\<open>mine_votes\<close> of both voting systems.
\<close>

theorem mine_empty_pool_unchanged:
  "(pending_transactions bc = [] \<longrightarrow>
      mine_pending_transactions L now bc = Some (Inr (False, bc))) \<and>
   (pending_transactions (blockchain s) = [] \<longrightarrow>
      mine_votes L now s = Some (Inr (''No votes to mine'', s))) \<and>
   (app_pending_transactions abc = [] \<longrightarrow>
      app_mine_pending_transactions L now abc = Some (Inr ((False, ''No votes to mine''), abc))) \<and>
   (app_pending_transactions (app_blockchain a) = [] \<longrightarrow>
      app_mine_votes L now a = Some (Inr ((False, ''No votes to mine''), a)))"
  by (simp add: mine_pending_transactions_def mine_votes_def app_mine_pending_transactions_def
      app_mine_votes_def)

theorem mine_empty_pool_unchanged_witness:
  "pending_transactions (blockchain demo_s1) = [] \<and>
   mine_pending_transactions demo_lib 5 (blockchain demo_s1) = Some (Inr (False, blockchain demo_s1)) \<and>
   mine_votes demo_lib 5 demo_s1 = Some (Inr (''No votes to mine'', demo_s1)) \<and>
   chain (blockchain demo_s1) = [demo_genesis] \<and>
   app_pending_transactions (app_blockchain demo_a3) = [] \<and>
   app_mine_pending_transactions demo_lib 5 (app_blockchain demo_a3)
     = Some (Inr ((False, ''No votes to mine''), app_blockchain demo_a3)) \<and>
   app_mine_votes demo_lib 5 demo_a3 = Some (Inr ((False, ''No votes to mine''), demo_a3)) \<and>
   length (app_chain (app_blockchain demo_a3)) = 2"
  using mine_empty_pool_unchanged
    [of "blockchain demo_s1" demo_lib 5 demo_s1 "app_blockchain demo_a3" demo_a3]
  by (simp add: demo_s1_def demo_s0_def demo_a3_def)

section \<open>Mining the pending pool (claim C3) and the genesis block (claim C8)\<close>

lemma mine_pending_transactions_success:
  assumes "pending_transactions bc \<noteq> []" and "chain bc \<noteq> []"
    and "solves L (difficulty bc)
           (Block L (length (chain bc)) (pending_transactions bc) now (hash (last (chain bc)))) n"
  shows "\<exists>b. mine_pending_transactions L now bc
             = Some (Inr (True, bc\<lparr>chain := chain bc @ [b], pending_transactions := []\<rparr>)) \<and>
           index b = length (chain bc) \<and> previous_hash b = hash (last (chain bc)) \<and>
           transactions b = pending_transactions bc \<and> hash b = calculate_hash L b \<and>
           difficulty bc \<le> int (leading_zeros (hash b))"
proof -
  from mine_fresh_block[OF assms(3)] obtain b where
    "mine_block L (difficulty bc)
       (Block L (length (chain bc)) (pending_transactions bc) now (hash (last (chain bc)))) = Some b"
    "index b = length (chain bc)" "previous_hash b = hash (last (chain bc))"
    "transactions b = pending_transactions bc" "hash_consistent L b"
    "difficulty bc \<le> int (leading_zeros (hash b))"
    by blast
  then show ?thesis
    using assms(1,2)
    by (intro exI[of _ b])
      (simp add: mine_pending_transactions_def get_latest_block_def hash_consistent_def)
qed

lemma app_mine_pending_transactions_success:
  assumes "app_pending_transactions bc \<noteq> []" and "app_chain bc \<noteq> []"
    and "solves L (app_difficulty bc)
           (Block L (length (app_chain bc)) (app_pending_transactions bc) now
              (hash (last (app_chain bc)))) n"
  shows "\<exists>b. app_mine_pending_transactions L now bc
             = Some (Inr ((True, ''Mined '' @ str_nat (length (app_pending_transactions bc))
                                 @ '' votes into block #'' @ str_nat (length (app_chain bc))),
                          bc\<lparr>app_chain := app_chain bc @ [b], app_pending_transactions := []\<rparr>)) \<and>
           index b = length (app_chain bc) \<and> previous_hash b = hash (last (app_chain bc)) \<and>
           transactions b = app_pending_transactions bc \<and> hash b = calculate_hash L b \<and>
           app_difficulty bc \<le> int (leading_zeros (hash b))"
proof -
  from mine_fresh_block[OF assms(3)] obtain b where
    "mine_block L (app_difficulty bc)
       (Block L (length (app_chain bc)) (app_pending_transactions bc) now
          (hash (last (app_chain bc)))) = Some b"
    "index b = length (app_chain bc)" "previous_hash b = hash (last (app_chain bc))"
    "transactions b = app_pending_transactions bc" "hash_consistent L b"
    "app_difficulty bc \<le> int (leading_zeros (hash b))"
    by blast
  then show ?thesis
    using assms(1,2)
    by (intro exI[of _ b])
      (simp add: app_mine_pending_transactions_def app_get_latest_block_def hash_consistent_def
        Let_def)
qed

text \<open>
  Claim C3: in every state whose pending pool is not empty (the chain holding at least its
  genesis block, as it does from construction on), \<^verbatim>\<open>mine_pending_transactions\<close> appends
  exactly one block, whose index is the length of the chain before the call, whose
  previous hash is the hash of the last block before the call, whose transactions are the
  pending records in insertion order, and whose stored hash is the digest of its stored
  fields and has at least \<open>difficulty\<close> leading zero characters; the pool is empty
  afterwards and the call reports success (\<^verbatim>\<open>True\<close> in \<^verbatim>\<open>blockchain.py\<close>; \<^verbatim>\<open>True\<close>
  with a message naming the count and the block index in \<^verbatim>\<open>app.py\<close>). The search of
  the proof-of-work has no bound in the code, so that the call returns is proved from the
  existence of a nonce \<open>n\<close> whose digest meets the target.
\<close>

theorem mine_pending_transactions_post:
  "(pending_transactions bc \<noteq> [] \<and> chain bc \<noteq> [] \<and>
    solves L (difficulty bc)
      (Block L (length (chain bc)) (pending_transactions bc) now (hash (last (chain bc)))) n \<longrightarrow>
    (\<exists>b. mine_pending_transactions L now bc
            = Some (Inr (True, bc\<lparr>chain := chain bc @ [b], pending_transactions := []\<rparr>)) \<and>
          index b = length (chain bc) \<and> previous_hash b = hash (last (chain bc)) \<and>
          transactions b = pending_transactions bc \<and> hash b = calculate_hash L b \<and>
          difficulty bc \<le> int (leading_zeros (hash b)))) \<and>
   (app_pending_transactions abc \<noteq> [] \<and> app_chain abc \<noteq> [] \<and>
    solves L (app_difficulty abc)
      (Block L (length (app_chain abc)) (app_pending_transactions abc) now
         (hash (last (app_chain abc)))) m \<longrightarrow>
    (\<exists>b. app_mine_pending_transactions L now abc
            = Some (Inr ((True, ''Mined '' @ str_nat (length (app_pending_transactions abc))
                                @ '' votes into block #'' @ str_nat (length (app_chain abc))),
                         abc\<lparr>app_chain := app_chain abc @ [b], app_pending_transactions := []\<rparr>)) \<and>
          index b = length (app_chain abc) \<and> previous_hash b = hash (last (app_chain abc)) \<and>
          transactions b = app_pending_transactions abc \<and> hash b = calculate_hash L b \<and>
          app_difficulty abc \<le> int (leading_zeros (hash b))))"
  using mine_pending_transactions_success[of bc L now n]
    app_mine_pending_transactions_success[of abc L now m]
  by blast

lemma demo_solves_block1:
  "solves demo_lib 2 (Block demo_lib (Suc (Suc 0) - 1) [vote_transaction ''V1'' ''Alice'' 3] 4 ''00nn'') 1"
  by (simp add: solves_def with_nonce_def target_unmet_2 demo_calculate_hash Block_def)

theorem mine_pending_transactions_post_witness:
  "pending_transactions (blockchain demo_s2) \<noteq> [] \<and> chain (blockchain demo_s2) \<noteq> [] \<and>
   solves demo_lib (difficulty (blockchain demo_s2))
     (Block demo_lib (length (chain (blockchain demo_s2)))
        (pending_transactions (blockchain demo_s2)) 4 (hash (last (chain (blockchain demo_s2))))) 1 \<and>
   (\<exists>b. mine_pending_transactions demo_lib 4 (blockchain demo_s2)
           = Some (Inr (True, (blockchain demo_s2)\<lparr>chain := [demo_genesis, b],
                                                    pending_transactions := []\<rparr>)) \<and>
         index b = 1 \<and> previous_hash b = hash demo_genesis \<and>
         transactions b = [vote_transaction ''V1'' ''Alice'' 3] \<and>
         hash b = calculate_hash demo_lib b \<and> 2 \<le> int (leading_zeros (hash b))) \<and>
   app_pending_transactions (app_blockchain demo_a2) \<noteq> [] \<and>
   app_chain (app_blockchain demo_a2) \<noteq> [] \<and>
   solves demo_lib (app_difficulty (app_blockchain demo_a2))
     (Block demo_lib (length (app_chain (app_blockchain demo_a2)))
        (app_pending_transactions (app_blockchain demo_a2)) 4
        (hash (last (app_chain (app_blockchain demo_a2))))) 1 \<and>
   (\<exists>b. app_mine_pending_transactions demo_lib 4 (app_blockchain demo_a2)
           = Some (Inr ((True, ''Mined 1 votes into block #1''),
                        (app_blockchain demo_a2)\<lparr>app_chain := [demo_app_genesis, b],
                                                  app_pending_transactions := []\<rparr>)) \<and>
         index b = 1 \<and> previous_hash b = hash demo_app_genesis \<and>
         transactions b = [vote_transaction ''V1'' ''Alice'' 3] \<and>
         hash b = calculate_hash demo_lib b \<and> 2 \<le> int (leading_zeros (hash b)))"
  using mine_pending_transactions_post
    [of "blockchain demo_s2" demo_lib 4 1 "app_blockchain demo_a2" 1]
    demo_solves_block1
  by (simp add: demo_s2_def demo_a2_def demo_genesis_def demo_app_genesis_def str_nat.simps
      digit_char_def)

lemma Blockchain_genesis:
  assumes "Blockchain L now = Some bc"
  shows "\<exists>g. chain bc = [g] \<and> index g = 0 \<and> previous_hash g = ''0'' \<and>
           transactions g = [Str ''Genesis Block''] \<and> hash g = calculate_hash L g \<and>
           2 \<le> leading_zeros (hash g) \<and> difficulty bc = 2 \<and> pending_transactions bc = []"
proof -
  define txs0 where "txs0 = [Str ''Genesis Block'']"
  from assms obtain g where
    m: "mine_block L 2 (Block L 0 txs0 now ''0'') = Some g"
    and bc: "bc = \<lparr>chain = [g], difficulty = 2, pending_transactions = []\<rparr>"
    by (auto simp: Blockchain_def create_genesis_block_def txs0_def split: option.splits)
  from mine_block_Block_post[OF m]
  have "index g = 0" "previous_hash g = ''0''" "hash g = calculate_hash L g"
    by simp_all
  moreover from mine_block_Block_post[OF m] have "2 \<le> leading_zeros (hash g)"
    by linarith
  moreover from mine_block_post[OF m] have "transactions g = transactions (Block L 0 txs0 now ''0'')"
    by blast
  ultimately show ?thesis
    unfolding bc by (intro exI[of _ g]) (simp add: txs0_def)
qed

lemma app_Blockchain_genesis:
  assumes "app_Blockchain L now = Some bc"
  shows "\<exists>g. app_chain bc = [g] \<and> index g = 0 \<and> previous_hash g = ''0'' \<and>
           transactions g = [Dict [(''message'', PStr ''Genesis Block'')]] \<and>
           hash g = calculate_hash L g \<and> 2 \<le> leading_zeros (hash g) \<and>
           app_difficulty bc = 2 \<and> app_pending_transactions bc = [] \<and> voted_voters bc = {}"
proof -
  define txs0 where "txs0 = [Dict [(''message'', PStr ''Genesis Block'')]]"
  from assms obtain g where
    m: "mine_block L 2 (Block L 0 txs0 now ''0'') = Some g"
    and bc: "bc = \<lparr>app_chain = [g], app_difficulty = 2, app_pending_transactions = [],
                   voted_voters = {}\<rparr>"
    by (auto simp: app_Blockchain_def app_create_genesis_block_def txs0_def split: option.splits)
  from mine_block_Block_post[OF m]
  have "index g = 0" "previous_hash g = ''0''" "hash g = calculate_hash L g"
    by simp_all
  moreover from mine_block_Block_post[OF m] have "2 \<le> leading_zeros (hash g)"
    by linarith
  moreover from mine_block_post[OF m] have "transactions g = transactions (Block L 0 txs0 now ''0'')"
    by blast
  ultimately show ?thesis
    unfolding bc by (intro exI[of _ g]) (simp add: txs0_def)
qed

lemma Blockchain_returns:
  "solves L 2 (Block L 0 [Str ''Genesis Block''] now ''0'') n \<Longrightarrow> \<exists>bc. Blockchain L now = Some bc"
  using mine_fresh_block[of L 2 0 "[Str ''Genesis Block'']" now "''0''" n]
  by (auto simp: Blockchain_def create_genesis_block_def)

lemma app_Blockchain_returns:
  "solves L 2 (Block L 0 [Dict [(''message'', PStr ''Genesis Block'')]] now ''0'') n \<Longrightarrow>
     \<exists>bc. app_Blockchain L now = Some bc"
  using mine_fresh_block[of L 2 0 "[Dict [(''message'', PStr ''Genesis Block'')]]" now "''0''" n]
  by (auto simp: app_Blockchain_def app_create_genesis_block_def)

text \<open>
  Claim C8: right after the construction of a \<^verbatim>\<open>Blockchain\<close> the chain holds exactly one
  block, the genesis block, with index 0, previous hash \<^verbatim>\<open>"0"\<close>, the fixed genesis marker
  as its only transaction (the string \<^verbatim>\<open>"Genesis Block"\<close> in \<^verbatim>\<open>blockchain.py\<close>, the dict
  \<^verbatim>\<open>{"message": "Genesis Block"}\<close> in \<^verbatim>\<open>app.py\<close>), and a hash that is the digest of its
  fields and is mined to the configured difficulty 2. The constructor returns as soon as
  some nonce \<open>n\<close> gives the genesis block a digest that meets the target.
\<close>

theorem genesis_block_after_construction:
  "(Blockchain L now = Some bc \<longrightarrow>
      (\<exists>g. chain bc = [g] \<and> index g = 0 \<and> previous_hash g = ''0'' \<and>
            transactions g = [Str ''Genesis Block''] \<and> hash g = calculate_hash L g \<and>
            difficulty bc = 2 \<and> 2 \<le> leading_zeros (hash g))) \<and>
   (solves L 2 (Block L 0 [Str ''Genesis Block''] now ''0'') n \<longrightarrow>
      (\<exists>bc. Blockchain L now = Some bc)) \<and>
   (app_Blockchain L now = Some abc \<longrightarrow>
      (\<exists>g. app_chain abc = [g] \<and> index g = 0 \<and> previous_hash g = ''0'' \<and>
            transactions g = [Dict [(''message'', PStr ''Genesis Block'')]] \<and>
            hash g = calculate_hash L g \<and> app_difficulty abc = 2 \<and>
            2 \<le> leading_zeros (hash g))) \<and>
   (solves L 2 (Block L 0 [Dict [(''message'', PStr ''Genesis Block'')]] now ''0'') m \<longrightarrow>
      (\<exists>abc. app_Blockchain L now = Some abc))"
  using Blockchain_genesis[of L now bc] app_Blockchain_genesis[of L now abc]
    Blockchain_returns[of L now n] app_Blockchain_returns[of L now m]
  by blast

lemma demo_Blockchain: "Blockchain demo_lib 1 = Some (blockchain demo_s0)"
  by (simp add: Blockchain_def create_genesis_block_def demo_mine_genesis demo_s0_def)

lemma demo_app_Blockchain: "app_Blockchain demo_lib 1 = Some (app_blockchain demo_a0)"
  by (simp add: app_Blockchain_def app_create_genesis_block_def demo_mine_app_genesis demo_a0_def)

lemma demo_solves_genesis:
  "solves demo_lib 2 (Block demo_lib 0 txs 1 ''0'') 2"
  by (simp add: solves_def with_nonce_def target_unmet_2 demo_calculate_hash Block_def)

theorem genesis_block_after_construction_witness:
  "Blockchain demo_lib 1 = Some (blockchain demo_s0) \<and>
   solves demo_lib 2 (Block demo_lib 0 [Str ''Genesis Block''] 1 ''0'') 2 \<and>
   chain (blockchain demo_s0) = [demo_genesis] \<and> index demo_genesis = 0 \<and>
   previous_hash demo_genesis = ''0'' \<and> transactions demo_genesis = [Str ''Genesis Block''] \<and>
   hash demo_genesis = calculate_hash demo_lib demo_genesis \<and>
   2 \<le> leading_zeros (hash demo_genesis) \<and>
   app_Blockchain demo_lib 1 = Some (app_blockchain demo_a0) \<and>
   solves demo_lib 2 (Block demo_lib 0 [Dict [(''message'', PStr ''Genesis Block'')]] 1 ''0'') 2 \<and>
   app_chain (app_blockchain demo_a0) = [demo_app_genesis] \<and> index demo_app_genesis = 0 \<and>
   previous_hash demo_app_genesis = ''0'' \<and>
   transactions demo_app_genesis = [Dict [(''message'', PStr ''Genesis Block'')]] \<and>
   hash demo_app_genesis = calculate_hash demo_lib demo_app_genesis \<and>
   2 \<le> leading_zeros (hash demo_app_genesis)"
  using genesis_block_after_construction
    [of demo_lib 1 "blockchain demo_s0" 2 "app_blockchain demo_a0" 2]
    demo_Blockchain demo_app_Blockchain demo_solves_genesis
  by (simp add: demo_s0_def demo_a0_def demo_genesis_def demo_app_genesis_def)

section \<open>Rejected votes (claim C6) and registration (claim C7)\<close>

lemma cast_vote_messages:
  "fst (cast_vote now s voter_id tok candidate)
     \<in> {msg_not_registered, msg_invalid_token, msg_invalid_candidate, msg_already_voted,
         msg_vote_cast}"
  by (simp add: cast_vote_def Let_def split: option.splits)

lemma cast_vote_rejected:
  "cast_vote now s voter_id tok candidate = (msg, s') \<Longrightarrow> msg \<noteq> msg_vote_cast \<Longrightarrow> s' = s"
  by (auto simp: cast_vote_def Let_def split: option.splits if_splits)

lemma app_cast_vote_rejected:
  "app_cast_vote now a voter_id tok candidate = ((ok, m), a') \<Longrightarrow> \<not> ok \<Longrightarrow> a' = a"
  by (auto simp: app_cast_vote_def verify_voter_def add_vote_def Let_def split: if_splits)

text \<open>
  Claim C6: whenever \<^verbatim>\<open>cast_vote\<close> returns a rejection (in \<^verbatim>\<open>voting_system.py\<close> any of
  the messages for an unregistered voter, an invalid token, an invalid candidate or a
  voter who has already voted, that is, any message but the success message; in
  \<^verbatim>\<open>app.py\<close> any result whose success flag is \<^verbatim>\<open>False\<close>), the whole state, and with it the
  voter registry, the pending pool and the chain, is exactly as it was before the call.
\<close>

theorem rejected_cast_vote_unchanged:
  "(cast_vote now s voter_id tok candidate = (msg, s') \<and> msg \<noteq> msg_vote_cast \<longrightarrow>
      s' = s \<and>
      msg \<in> {msg_not_registered, msg_invalid_token, msg_invalid_candidate, msg_already_voted}) \<and>
   (app_cast_vote now a app_voter_id app_tok app_candidate = ((ok, m), a') \<and> \<not> ok \<longrightarrow> a' = a)"
  using cast_vote_messages[of now s voter_id tok candidate]
    cast_vote_rejected[of now s voter_id tok candidate msg s']
    app_cast_vote_rejected[of now a app_voter_id app_tok app_candidate ok m a']
  by auto

lemma demo_cast_again:
  "cast_vote 5 demo_s2 ''V1'' ''ffV1t'' ''Bob'' = (msg_already_voted, demo_s2)"
  by (simp add: cast_vote_def verify_token_def demo_s2_def Let_def)

lemma demo_app_cast_wrong_token:
  "app_cast_vote 5 demo_a2 ''V1'' ''wrong-token'' ''Alice'' = ((False, ''Invalid token''), demo_a2)"
  by (simp add: app_cast_vote_def verify_voter_def demo_a2_def)

theorem rejected_cast_vote_unchanged_witness:
  "cast_vote 5 demo_s2 ''V1'' ''ffV1t'' ''Bob'' = (msg_already_voted, demo_s2) \<and>
   msg_already_voted \<noteq> msg_vote_cast \<and>
   length (pending_transactions (blockchain demo_s2)) = 1 \<and>
   app_cast_vote 5 demo_a2 ''V1'' ''wrong-token'' ''Alice'' = ((False, ''Invalid token''), demo_a2)"
  using rejected_cast_vote_unchanged
    [of 5 demo_s2 "''V1''" "''ffV1t''" "''Bob''" msg_already_voted demo_s2
        demo_a2 "''V1''" "''wrong-token''" "''Alice''" False "''Invalid token''" demo_a2]
    demo_cast_again demo_app_cast_wrong_token
  by (simp add: msg_already_voted_def msg_vote_cast_def demo_s2_def)

text \<open>
  Claim C7 says that registering a voter who is already present returns a structured
  failure to the caller and never escapes as an exception, and that a fresh voter gets a
  token stored and returned. \<^verbatim>\<open>register_voter\<close> of \<^verbatim>\<open>voting_system.py\<close> raises
  \<^verbatim>\<open>Exception("Voter already registered")\<close> instead: below, voter \<^verbatim>\<open>V1\<close> is registered a
  second time. And on a fresh voter id that holds a surrogate code point, \<^verbatim>\<open>encode\<close>
  raises in both implementations, and no token is stored or returned.
\<close>

theorem register_voter_raises_counterexample:
  "voters demo_s1 ''V1'' \<noteq> None \<and>
   register_voter demo_lib 5 demo_s1 ''V1'' = Inl (Exception ''Voter already registered'') \<and>
   voters demo_s1 demo_surrogate_id = None \<and>
   register_voter demo_lib 5 demo_s1 demo_surrogate_id = Inl UnicodeEncodeError \<and>
   registered_voters demo_a1 demo_surrogate_id = None \<and>
   app_register_voter demo_lib 5 demo_a1 demo_surrogate_id = Inl UnicodeEncodeError"
  by (simp add: register_voter_def app_register_voter_def encode_def demo_s1_def demo_a1_def
      demo_surrogate_id_def)

text \<open>
  Claim C7, amended: registering a voter who is already present fails and changes nothing,
  the stored token included: \<^verbatim>\<open>app.py\<close> returns the structured failure
  \<^verbatim>\<open>(False, "Voter already registered", None)\<close> with the state as it was, and
  \<^verbatim>\<open>voting_system.py\<close> raises \<^verbatim>\<open>Exception("Voter already registered")\<close> to its caller
  before any assignment. On a fresh voter id that holds no surrogate code point, so that
  the text to digest can be encoded, both store a token for the voter (the first twelve
  characters of the digest of the voter id followed by the clock reading) and return that
  token, leaving every other entry as it was.
\<close>

theorem register_voter_results:
  "(voters s known \<noteq> None \<longrightarrow>
      register_voter L now s known = Inl (Exception ''Voter already registered'')) \<and>
   (voters s new = None \<and> \<not> has_surrogate (new @ str_float L now) \<longrightarrow>
      register_voter L now s new
        = Inr (take 12 (sha256_hexdigest L (new @ str_float L now)),
               s\<lparr>voters := (voters s)
                    (new \<mapsto> \<lparr>token = take 12 (sha256_hexdigest L (new @ str_float L now)),
                              voted = False\<rparr>)\<rparr>)) \<and>
   (registered_voters a app_known \<noteq> None \<longrightarrow>
      app_register_voter L now a app_known
        = Inr ((False, ''Voter already registered'', None), a)) \<and>
   (registered_voters a app_new = None \<and> \<not> has_surrogate (app_new @ str_float L now) \<longrightarrow>
      app_register_voter L now a app_new
        = Inr ((True, ''Registration successful'',
                Some (take 12 (sha256_hexdigest L (app_new @ str_float L now)))),
               a\<lparr>registered_voters := (registered_voters a)
                    (app_new \<mapsto> take 12 (sha256_hexdigest L (app_new @ str_float L now)))\<rparr>))"
  by (simp add: register_voter_def app_register_voter_def encode_def Let_def)

theorem register_voter_results_witness:
  "voters demo_s1 ''V1'' \<noteq> None \<and>
   register_voter demo_lib 5 demo_s1 ''V1'' = Inl (Exception ''Voter already registered'') \<and>
   voters demo_s1 ''V2'' = None \<and> \<not> has_surrogate (''V2'' @ str_float demo_lib 5) \<and>
   register_voter demo_lib 5 demo_s1 ''V2''
     = Inr (''ffV2t'', demo_s1\<lparr>voters := (voters demo_s1)(''V2'' \<mapsto> \<lparr>token = ''ffV2t'', voted = False\<rparr>)\<rparr>) \<and>
   registered_voters demo_a1 ''V1'' \<noteq> None \<and>
   app_register_voter demo_lib 5 demo_a1 ''V1''
     = Inr ((False, ''Voter already registered'', None), demo_a1) \<and>
   registered_voters demo_a1 ''V1'' = Some ''ffV1t'' \<and>
   registered_voters demo_a1 ''V2'' = None \<and>
   app_register_voter demo_lib 5 demo_a1 ''V2''
     = Inr ((True, ''Registration successful'', Some ''ffV2t''),
            demo_a1\<lparr>registered_voters := (registered_voters demo_a1)(''V2'' \<mapsto> ''ffV2t'')\<rparr>)"
  using register_voter_results[of demo_s1 "''V1''" demo_lib 5 "''V2''" demo_a1 "''V1''" "''V2''"]
  by (simp add: demo_s1_def demo_a1_def demo_lib_def)

section \<open>The counting loops\<close>

lemma votes_for_simps [simp]:
  "votes_for c [] = 0"
  "votes_for c (t # ts) = (if lookup ''candidate'' t = Some c then 1 else 0) + votes_for c ts"
  "votes_for c (xs @ ys) = votes_for c xs + votes_for c ys"
  by (simp_all add: votes_for_def)

lemma mined_transactions_simps [simp]:
  "mined_transactions [] = []"
  "mined_transactions (b # bs) = transactions b @ mined_transactions bs"
  "mined_transactions (bs @ cs) = mined_transactions bs @ mined_transactions cs"
  by (simp_all add: mined_transactions_def)

lemma count_txs_eq:
  "count_txs txs counts c =
     (if votes_for c txs = 0 then counts c
      else Some ((case counts c of None \<Rightarrow> 0 | Some k \<Rightarrow> k) + votes_for c txs))"
proof (induction txs arbitrary: counts)
  case Nil
  show ?case by simp
next
  case (Cons t ts)
  show ?case
  proof (cases "lookup ''candidate'' t")
    case None
    then show ?thesis by (simp add: Cons.IH)
  next
    case (Some c')
    then show ?thesis by (simp add: Cons.IH split: option.splits)
  qed
qed

lemma count_blocks_eq:
  "count_blocks bs counts c =
     (if votes_for c (mined_transactions bs) = 0 then counts c
      else Some ((case counts c of None \<Rightarrow> 0 | Some k \<Rightarrow> k) + votes_for c (mined_transactions bs)))"
proof (induction bs arbitrary: counts)
  case Nil
  show ?case by simp
next
  case (Cons b bs)
  show ?case
    by (simp add: Cons.IH count_txs_eq split: option.splits)
qed

lemma get_vote_counts_eq:
  "get_vote_counts bc = tally_of (\<lambda>c. votes_for c (mined_transactions (chain bc)))"
  by (rule ext) (simp add: get_vote_counts_def tally_of_def count_blocks_eq)

lemma app_get_results_eq:
  "app_get_results abc =
     tally_of (\<lambda>c. votes_for c (mined_transactions (drop 1 (app_chain abc)))
                  + votes_for c (app_pending_transactions abc))"
  by (rule ext) (simp add: app_get_results_def tally_of_def count_txs_eq count_blocks_eq)

section \<open>Invariants of the reachable states\<close>

lemma lookup_vote_transaction [simp]:
  "lookup ''voter_id'' (vote_transaction v c now) = Some (PStr v)"
  "lookup ''candidate'' (vote_transaction v c now) = Some (PStr c)"
  by (simp_all add: vote_transaction_def)

lemma records_of_simps [simp]:
  "records_of v [] = 0"
  "records_of v (t # ts) = (if lookup ''voter_id'' t = Some (PStr v) then 1 else 0) + records_of v ts"
  "records_of v (xs @ ys) = records_of v xs + records_of v ys"
  by (simp_all add: records_of_def)

lemma voter_ids_simps [simp]:
  "voter_ids [] = {}"
  "voter_ids (xs @ ys) = voter_ids xs \<union> voter_ids ys"
  "voter_ids [vote_transaction v c now] = {PStr v}"
  by (simp_all add: voter_ids_def map_filter_def)

text \<open>The two outcomes of mining that return a state.\<close>

lemma mine_pending_transactions_cases:
  assumes "mine_pending_transactions L now bc = Some (Inr (r, bc'))"
  shows "(pending_transactions bc = [] \<and> \<not> r \<and> bc' = bc) \<or>
         (pending_transactions bc \<noteq> [] \<and> r \<and> chain bc \<noteq> [] \<and>
          (\<exists>b. bc' = bc\<lparr>chain := chain bc @ [b], pending_transactions := []\<rparr> \<and>
                transactions b = pending_transactions bc))"
proof (cases "pending_transactions bc = []")
  case True
  with assms show ?thesis by (simp add: mine_pending_transactions_def)
next
  case False
  with assms obtain b where
    ne: "chain bc \<noteq> []" and
    m: "mine_block L (difficulty bc)
          (Block L (length (chain bc)) (pending_transactions bc) now (hash (last (chain bc)))) = Some b"
    and r: "r" "bc' = bc\<lparr>chain := chain bc @ [b], pending_transactions := []\<rparr>"
    by (auto simp: mine_pending_transactions_def get_latest_block_def split: if_splits option.splits)
  from mine_block_Block_post[OF m] have "transactions b = pending_transactions bc" by simp
  with False ne r show ?thesis by blast
qed

lemma app_mine_pending_transactions_cases:
  assumes "app_mine_pending_transactions L now bc = Some (Inr ((ok, m), bc'))"
  shows "(app_pending_transactions bc = [] \<and> \<not> ok \<and> bc' = bc) \<or>
         (app_pending_transactions bc \<noteq> [] \<and> ok \<and> app_chain bc \<noteq> [] \<and>
          (\<exists>b. bc' = bc\<lparr>app_chain := app_chain bc @ [b], app_pending_transactions := []\<rparr> \<and>
                transactions b = app_pending_transactions bc))"
proof (cases "app_pending_transactions bc = []")
  case True
  with assms show ?thesis by (simp add: app_mine_pending_transactions_def)
next
  case False
  with assms obtain b where
    ne: "app_chain bc \<noteq> []" and
    m: "mine_block L (app_difficulty bc)
          (Block L (length (app_chain bc)) (app_pending_transactions bc) now
             (hash (last (app_chain bc)))) = Some b"
    and r: "ok" "bc' = bc\<lparr>app_chain := app_chain bc @ [b], app_pending_transactions := []\<rparr>"
    by (auto simp: app_mine_pending_transactions_def app_get_latest_block_def Let_def
        split: if_splits option.splits)
  from mine_block_Block_post[OF m] have "transactions b = app_pending_transactions bc" by simp
  with False ne r show ?thesis by blast
qed

lemma inv_fresh: "VotingSystem L now = Some s \<Longrightarrow> system_inv s"
  using Blockchain_genesis[of L now]
  by (auto simp: VotingSystem_def system_inv_def all_transactions_def split: option.splits)

lemma inv_register:
  assumes inv: "system_inv s" and reg: "register_voter L now s voter_id = Inr (tok, s')"
  shows "system_inv s'"
proof -
  from reg have none: "voters s voter_id = None"
    and s': "s' = s\<lparr>voters := (voters s)(voter_id \<mapsto> \<lparr>token = tok, voted = False\<rparr>)\<rparr>"
    by (auto simp: register_voter_def Let_def split: if_splits sum.splits)
  have f: "blockchain s' = blockchain s" "pending_votes s' = pending_votes s"
    by (simp_all add: s')
  from inv none have zero: "records_of voter_id (all_transactions (blockchain s)) = 0"
    unfolding system_inv_def by (metis not_gr_zero option.distinct(1))
  have marked: "\<And>v. 0 < records_of v (all_transactions (blockchain s)) \<Longrightarrow>
      \<exists>r. voters s' v = Some r \<and> voted r"
  proof -
    fix v
    assume pos: "0 < records_of v (all_transactions (blockchain s))"
    with zero have "v \<noteq> voter_id" by auto
    moreover from inv pos have "\<exists>r. voters s v = Some r \<and> voted r"
      by (simp add: system_inv_def)
    ultimately show "\<exists>r. voters s' v = Some r \<and> voted r" by (simp add: s')
  qed
  from inv marked show ?thesis
    unfolding system_inv_def f by blast
qed

lemma inv_cast:
  assumes inv: "system_inv s" and c: "cast_vote now s voter_id tok candidate = (msg, s')"
  shows "system_inv s'"
proof (cases "msg = msg_vote_cast")
  case False
  with cast_vote_rejected[OF c] inv show ?thesis by simp
next
  case True
  with c obtain r where r: "voters s voter_id = Some r" "\<not> voted r"
    and s': "s' = s\<lparr>pending_votes := (pending_votes s)(voter_id \<mapsto> vote_transaction voter_id candidate now),
                   blockchain := (blockchain s)\<lparr>pending_transactions :=
                      pending_transactions (blockchain s) @ [vote_transaction voter_id candidate now]\<rparr>,
                   voters := (voters s)(voter_id \<mapsto> r\<lparr>voted := True\<rparr>)\<rparr>"
    by (auto simp: cast_vote_def Let_def add_transaction_def msg_vote_cast_def
        msg_not_registered_def msg_invalid_token_def msg_invalid_candidate_def msg_already_voted_def
        split: option.splits if_splits)
  from inv r have zero: "records_of voter_id (all_transactions (blockchain s)) = 0"
    unfolding system_inv_def by (metis not_gr_zero option.inject)
  have one: "\<And>v. records_of v (all_transactions (blockchain s')) \<le> 1"
  proof -
    fix v
    from inv have "records_of v (all_transactions (blockchain s)) \<le> 1"
      by (simp add: system_inv_def)
    with zero show "records_of v (all_transactions (blockchain s')) \<le> 1"
      by (cases "v = voter_id") (simp_all add: s' all_transactions_def)
  qed
  have marked: "\<And>v. 0 < records_of v (all_transactions (blockchain s')) \<Longrightarrow>
      \<exists>r. voters s' v = Some r \<and> voted r"
  proof -
    fix v
    assume pos: "0 < records_of v (all_transactions (blockchain s'))"
    show "\<exists>r. voters s' v = Some r \<and> voted r"
    proof (cases "v = voter_id")
      case True
      then show ?thesis by (simp add: s')
    next
      case False
      with pos have "0 < records_of v (all_transactions (blockchain s))"
        by (simp add: s' all_transactions_def)
      with inv have "\<exists>r. voters s v = Some r \<and> voted r" by (simp add: system_inv_def)
      with False show ?thesis by (simp add: s')
    qed
  qed
  have gen: "\<exists>g rest. chain (blockchain s') = g # rest \<and> transactions g = [Str ''Genesis Block'']"
    using inv by (simp add: system_inv_def s')
  have sync: "PStr ` dom (pending_votes s') = voter_ids (pending_transactions (blockchain s'))"
    using inv by (auto simp: system_inv_def s')
  have same: "\<And>v t. pending_votes s' v = Some t \<Longrightarrow>
      t \<in> set (pending_transactions (blockchain s')) \<and> lookup ''voter_id'' t = Some (PStr v)"
    using inv by (auto simp: system_inv_def s' split: if_splits)
  from gen one marked sync same show ?thesis
    unfolding system_inv_def by blast
qed

lemma inv_mine:
  assumes inv: "system_inv s" and m: "mine_votes L now s = Some (Inr (msg, s'))"
  shows "system_inv s'"
proof -
  from m obtain r bc' where
    mp: "mine_pending_transactions L now (blockchain s) = Some (Inr (r, bc'))"
    and s': "s' = (if r then s\<lparr>blockchain := bc', pending_votes := Map.empty\<rparr>
                   else s\<lparr>blockchain := bc'\<rparr>)"
    by (auto simp: mine_votes_def split: option.splits sum.splits if_splits)
  from mine_pending_transactions_cases[OF mp] show ?thesis
  proof (elim disjE conjE exE)
    assume "\<not> r" "bc' = blockchain s"
    with s' inv show ?thesis by simp
  next
    fix b
    assume r: "r" and bc': "bc' = (blockchain s)\<lparr>chain := chain (blockchain s) @ [b],
        pending_transactions := []\<rparr>" and tx: "transactions b = pending_transactions (blockchain s)"
    have all: "all_transactions bc' = all_transactions (blockchain s)"
      by (simp add: all_transactions_def bc' tx)
    have f1: "blockchain s' = bc'" "voters s' = voters s" "pending_votes s' = Map.empty"
      using s' r by simp_all
    have f2: "pending_transactions bc' = []" "chain bc' = chain (blockchain s) @ [b]"
      by (simp_all add: bc')
    from inv show ?thesis
      unfolding system_inv_def f1 f2 all by auto
  qed
qed

lemma reachable_inv: "reachable L s \<Longrightarrow> system_inv s"
  by (induction rule: reachable.induct) (blast intro: inv_fresh inv_register inv_cast inv_mine)+

lemma app_inv_fresh: "app_VotingSystem L now = Some a \<Longrightarrow> app_system_inv a"
  using app_Blockchain_genesis[of L now]
  by (auto simp: app_VotingSystem_def app_system_inv_def app_all_transactions_def
      split: option.splits)

lemma app_inv_register:
  assumes inv: "app_system_inv a" and reg: "app_register_voter L now a voter_id = Inr (r, a')"
  shows "app_system_inv a'"
proof -
  from reg have "app_blockchain a' = app_blockchain a"
    by (auto simp: app_register_voter_def Let_def split: if_splits sum.splits)
  with inv show ?thesis
    by (simp add: app_system_inv_def)
qed

lemma app_inv_cast:
  assumes inv: "app_system_inv a" and c: "app_cast_vote now a voter_id tok candidate = (r, a')"
  shows "app_system_inv a'"
proof (cases "fst r")
  case False
  obtain ok m where r: "r = (ok, m)" by (cases r)
  with False c have "a' = a" by (auto dest: app_cast_vote_rejected)
  with inv show ?thesis by simp
next
  case True
  with c have nv: "voter_id \<notin> voted_voters (app_blockchain a)"
    and a': "a' = a\<lparr>app_blockchain := (app_blockchain a)
                 \<lparr>app_pending_transactions := app_pending_transactions (app_blockchain a)
                      @ [vote_transaction voter_id candidate now],
                  voted_voters := insert voter_id (voted_voters (app_blockchain a))\<rparr>\<rparr>"
    by (auto simp: app_cast_vote_def verify_voter_def add_vote_def Let_def split: if_splits)
  from inv nv have zero: "records_of voter_id (app_all_transactions (app_blockchain a)) = 0"
    unfolding app_system_inv_def by (metis not_gr_zero)
  have one: "\<And>v. records_of v (app_all_transactions (app_blockchain a')) \<le> 1"
  proof -
    fix v
    from inv have "records_of v (app_all_transactions (app_blockchain a)) \<le> 1"
      by (simp add: app_system_inv_def)
    with zero show "records_of v (app_all_transactions (app_blockchain a')) \<le> 1"
      by (cases "v = voter_id") (simp_all add: a' app_all_transactions_def)
  qed
  have marked: "\<And>v. 0 < records_of v (app_all_transactions (app_blockchain a')) \<Longrightarrow>
      v \<in> voted_voters (app_blockchain a')"
  proof -
    fix v
    assume pos: "0 < records_of v (app_all_transactions (app_blockchain a'))"
    show "v \<in> voted_voters (app_blockchain a')"
    proof (cases "v = voter_id")
      case True
      then show ?thesis by (simp add: a')
    next
      case False
      with pos have "0 < records_of v (app_all_transactions (app_blockchain a))"
        by (simp add: a' app_all_transactions_def)
      with inv show ?thesis by (simp add: app_system_inv_def a')
    qed
  qed
  have gen: "\<exists>g rest. app_chain (app_blockchain a') = g # rest \<and>
      transactions g = [Dict [(''message'', PStr ''Genesis Block'')]]"
    using inv by (simp add: app_system_inv_def a')
  from gen one marked show ?thesis
    unfolding app_system_inv_def by blast
qed

lemma app_inv_mine:
  assumes inv: "app_system_inv a" and m: "app_mine_votes L now a = Some (Inr (r, a'))"
  shows "app_system_inv a'"
proof -
  from m obtain bc' where
    mp: "app_mine_pending_transactions L now (app_blockchain a) = Some (Inr ((fst r, snd r), bc'))"
    and a': "a' = a\<lparr>app_blockchain := bc'\<rparr>"
    by (auto simp: app_mine_votes_def split: option.splits sum.splits)
  from app_mine_pending_transactions_cases[OF mp] show ?thesis
  proof (elim disjE conjE exE)
    assume "bc' = app_blockchain a"
    with a' inv show ?thesis by simp
  next
    fix b
    assume bc': "bc' = (app_blockchain a)\<lparr>app_chain := app_chain (app_blockchain a) @ [b],
        app_pending_transactions := []\<rparr>"
      and tx: "transactions b = app_pending_transactions (app_blockchain a)"
    have all: "app_all_transactions bc' = app_all_transactions (app_blockchain a)"
      by (simp add: app_all_transactions_def bc' tx)
    have f1: "app_blockchain a' = bc'"
      using a' by simp
    have f2: "voted_voters bc' = voted_voters (app_blockchain a)"
      "app_chain bc' = app_chain (app_blockchain a) @ [b]"
      by (simp_all add: bc')
    from inv show ?thesis
      unfolding app_system_inv_def f1 f2 all by auto
  qed
qed

lemma app_reachable_inv: "app_reachable L a \<Longrightarrow> app_system_inv a"
  by (induction rule: app_reachable.induct)
    (blast intro: app_inv_fresh app_inv_register app_inv_cast app_inv_mine)+

section \<open>What the tally counts (claim C2)\<close>

text \<open>
  Claim C2 says that the tally counts, in every reachable state, the records of the mined
  blocks and also those of the pending pool. \<^verbatim>\<open>get_results\<close> of \<^verbatim>\<open>voting_system.py\<close>
  (\<^verbatim>\<open>get_vote_counts\<close> of \<^verbatim>\<open>blockchain.py\<close>) reads the mined blocks only: after voter
  \<^verbatim>\<open>V1\<close> has voted for Alice and before the pool is mined, Alice has no entry.
\<close>

theorem get_results_pending_counterexample:
  "reachable demo_lib demo_s2 \<and>
   votes_for (PStr ''Alice'') (pending_transactions (blockchain demo_s2)) = 1 \<and>
   get_results demo_s2 (PStr ''Alice'') = None"
  using demo_reachable(3)
  by (simp add: get_results_def get_vote_counts_def demo_s2_def demo_genesis_def)

lemma reachable_genesis_no_votes:
  assumes "reachable L s"
  shows "votes_for c (mined_transactions (chain (blockchain s)))
           = votes_for c (mined_transactions (drop 1 (chain (blockchain s))))"
proof -
  from reachable_inv[OF assms]
  have "\<exists>g rest. chain (blockchain s) = g # rest \<and> transactions g = [Str ''Genesis Block'']"
    by (simp add: system_inv_def)
  then obtain g rest where
    "chain (blockchain s) = g # rest" "transactions g = [Str ''Genesis Block'']"
    by blast
  then show ?thesis by simp
qed

text \<open>
  Claim C2, amended: \<^verbatim>\<open>get_results\<close> of \<^verbatim>\<open>app.py\<close> returns, in every state and for each
  candidate, exactly the number of records naming that candidate in the transactions of
  every mined block but the genesis block plus the number of such records in the pending
  pool (a candidate with no record has no entry). \<^verbatim>\<open>get_results\<close> of
  \<^verbatim>\<open>voting_system.py\<close>, that is \<^verbatim>\<open>get_vote_counts\<close> of \<^verbatim>\<open>blockchain.py\<close>, returns the
  number of records naming the candidate in the transactions of the mined blocks (in a
  reachable state the genesis marker adds nothing); the records of the pending pool are
  not counted until they are mined.
\<close>

theorem tally_semantics:
  "app_get_results abc =
     tally_of (\<lambda>c. votes_for c (mined_transactions (drop 1 (app_chain abc)))
                  + votes_for c (app_pending_transactions abc)) \<and>
   app_VotingSystem_get_results a = app_get_results (app_blockchain a) \<and>
   get_results s = get_vote_counts (blockchain s) \<and>
   get_vote_counts bc = tally_of (\<lambda>c. votes_for c (mined_transactions (chain bc))) \<and>
   (reachable L s \<longrightarrow>
      get_results s = tally_of (\<lambda>c. votes_for c (mined_transactions (drop 1 (chain (blockchain s))))))"
  using reachable_genesis_no_votes[of L s]
  by (simp add: app_get_results_eq get_vote_counts_eq get_results_def
      app_VotingSystem_get_results_def)

theorem tally_semantics_witness:
  "reachable demo_lib demo_s3 \<and>
   get_results demo_s3 (PStr ''Alice'') = Some 1 \<and> get_results demo_s3 (PStr ''Bob'') = None \<and>
   app_get_results (app_blockchain demo_a2) (PStr ''Alice'') = Some 1 \<and>
   app_get_results (app_blockchain demo_a3) (PStr ''Alice'') = Some 1 \<and>
   app_get_results (app_blockchain demo_a3) (PStr ''Bob'') = None"
  using tally_semantics
    [of "app_blockchain demo_a2" demo_a2 demo_s3 "blockchain demo_s3" demo_lib]
    tally_semantics
    [of "app_blockchain demo_a3" demo_a3 demo_s3 "blockchain demo_s3" demo_lib]
    demo_reachable(4)
  by (simp add: tally_of_def demo_s3_def demo_a2_def demo_a3_def demo_genesis_def
      demo_app_genesis_def demo_block1_def)

section \<open>One vote per voter (claim C1)\<close>

lemma reachable_chain_nonempty: "reachable L s \<Longrightarrow> chain (blockchain s) \<noteq> []"
  using reachable_inv[of L s] by (auto simp: system_inv_def)

lemma app_reachable_chain_nonempty: "app_reachable L a \<Longrightarrow> app_chain (app_blockchain a) \<noteq> []"
  using app_reachable_inv[of L a] by (auto simp: app_system_inv_def)

lemma reachable_one_record:
  "reachable L s \<Longrightarrow> records_of v (all_transactions (blockchain s)) \<le> 1"
  using reachable_inv[of L s] by (simp add: system_inv_def)

lemma app_reachable_one_record:
  "app_reachable L a \<Longrightarrow> records_of v (app_all_transactions (app_blockchain a)) \<le> 1"
  using app_reachable_inv[of L a] by (simp add: app_system_inv_def)

lemma reachable_second_vote:
  assumes r: "reachable L s" and rec: "1 \<le> records_of v (all_transactions (blockchain s))"
    and tok: "verify_token s v tok" and cand: "candidate \<in> set (candidates s)"
  shows "cast_vote now s v tok candidate = (msg_already_voted, s)"
proof -
  from rec have "0 < records_of v (all_transactions (blockchain s))" by simp
  with reachable_inv[OF r] have "\<exists>vr. voters s v = Some vr \<and> voted vr"
    by (simp add: system_inv_def)
  then obtain vr where "voters s v = Some vr" "voted vr" by blast
  with tok cand show ?thesis by (simp add: cast_vote_def Let_def)
qed

lemma app_reachable_second_vote:
  assumes r: "app_reachable L a"
    and rec: "1 \<le> records_of v (app_all_transactions (app_blockchain a))"
    and tok: "registered_voters a v = Some tok" and cand: "candidate \<in> set (app_candidates a)"
  shows "app_cast_vote now a v tok candidate = ((False, ''This voter has already voted''), a)"
proof -
  from rec have "0 < records_of v (app_all_transactions (app_blockchain a))" by simp
  with app_reachable_inv[OF r] have "v \<in> voted_voters (app_blockchain a)"
    by (simp add: app_system_inv_def)
  with tok cand show ?thesis
    by (simp add: app_cast_vote_def verify_voter_def add_vote_def)
qed

text \<open>\<^verbatim>\<open>has_voter_voted\<close> holds exactly for the voters with a record in a mined block.\<close>

lemma dom_voter_votes_txs:
  "dom (voter_votes_txs txs votes) = dom votes \<union> {x. \<exists>t\<in>set txs. lookup ''voter_id'' t = Some x}"
  by (induction txs arbitrary: votes) (auto split: option.splits)

lemma dom_voter_votes_blocks:
  "dom (voter_votes_blocks bs votes)
     = dom votes \<union> {x. \<exists>t\<in>set (mined_transactions bs). lookup ''voter_id'' t = Some x}"
  by (induction bs arbitrary: votes) (auto simp: dom_voter_votes_txs)

lemma records_of_pos:
  "0 < records_of v txs \<longleftrightarrow> (\<exists>t\<in>set txs. lookup ''voter_id'' t = Some (PStr v))"
  by (induction txs) auto

lemma has_voter_voted_iff:
  "has_voter_voted bc v \<longleftrightarrow> 0 < records_of v (mined_transactions (chain bc))"
proof -
  have "has_voter_voted bc v \<longleftrightarrow> PStr v \<in> dom (get_voter_votes bc)"
    by (auto simp: has_voter_voted_def)
  then show ?thesis
    by (simp add: get_voter_votes_def dom_voter_votes_blocks records_of_pos)
qed

lemma mined_voter_rejected:
  assumes rec: "1 \<le> records_of v (mined_transactions (chain (blockchain s)))"
    and tok: "verify_token s v tok" and cand: "candidate \<in> set (candidates s)"
  shows "cast_vote now s v tok candidate = (msg_already_voted, s)"
proof -
  from rec have "has_voter_voted (blockchain s) v" by (simp add: has_voter_voted_iff)
  with tok cand show ?thesis
    by (auto simp: cast_vote_def verify_token_def Let_def split: option.splits)
qed

text \<open>
  Claim C1: in every state that a fresh system reaches through registrations, votes and
  minings, and for every voter, the number of vote records attributable to that voter
  in the pending pool and in the transactions of all mined blocks together is at most 1.
  In particular a further vote of a voter whose record has been mined (the pool being
  cleared since) is rejected, with valid token and candidate, by the already-voted
  result and without any change: in \<^verbatim>\<open>voting_system.py\<close> the scan of the mined blocks
  alone rejects it, in any state; a voter whose record is still pending is rejected in
  every reachable state; in \<^verbatim>\<open>app.py\<close> the set \<^verbatim>\<open>voted_voters\<close> rejects both in every
  reachable state.
\<close>

theorem one_vote_per_voter:
  "(reachable L s \<longrightarrow>
      records_of v (mined_transactions (chain (blockchain s)))
        + records_of v (pending_transactions (blockchain s)) \<le> 1) \<and>
   (1 \<le> records_of v (mined_transactions (chain (blockchain s))) \<and>
    verify_token s v tok \<and> candidate \<in> set (candidates s) \<longrightarrow>
      cast_vote now s v tok candidate = (msg_already_voted, s)) \<and>
   (reachable L p \<and> 1 \<le> records_of u (pending_transactions (blockchain p)) \<and>
    verify_token p u tok' \<and> candidate' \<in> set (candidates p) \<longrightarrow>
      cast_vote now p u tok' candidate' = (msg_already_voted, p)) \<and>
   (app_reachable L a \<longrightarrow>
      records_of w (mined_transactions (app_chain (app_blockchain a)))
        + records_of w (app_pending_transactions (app_blockchain a)) \<le> 1) \<and>
   (app_reachable L a \<and>
    1 \<le> records_of w (mined_transactions (app_chain (app_blockchain a)))
          + records_of w (app_pending_transactions (app_blockchain a)) \<and>
    registered_voters a w = Some app_tok \<and> app_candidate \<in> set (app_candidates a) \<longrightarrow>
      app_cast_vote now a w app_tok app_candidate = ((False, ''This voter has already voted''), a))"
  using reachable_one_record[of L s v] app_reachable_one_record[of L a w]
    mined_voter_rejected[of v s tok candidate now]
    reachable_second_vote[of L p u tok' candidate' now]
    app_reachable_second_vote[of L a w app_tok app_candidate now]
  by (simp add: all_transactions_def app_all_transactions_def)

theorem one_vote_per_voter_witness:
  "reachable demo_lib demo_s3 \<and>
   records_of ''V1'' (mined_transactions (chain (blockchain demo_s3))) = 1 \<and>
   records_of ''V1'' (pending_transactions (blockchain demo_s3)) = 0 \<and>
   verify_token demo_s3 ''V1'' ''ffV1t'' \<and> ''Bob'' \<in> set (candidates demo_s3) \<and>
   cast_vote 5 demo_s3 ''V1'' ''ffV1t'' ''Bob'' = (msg_already_voted, demo_s3) \<and>
   reachable demo_lib demo_s2 \<and>
   records_of ''V1'' (pending_transactions (blockchain demo_s2)) = 1 \<and>
   verify_token demo_s2 ''V1'' ''ffV1t'' \<and> ''Bob'' \<in> set (candidates demo_s2) \<and>
   cast_vote 5 demo_s2 ''V1'' ''ffV1t'' ''Bob'' = (msg_already_voted, demo_s2) \<and>
   app_reachable demo_lib demo_a3 \<and>
   records_of ''V1'' (mined_transactions (app_chain (app_blockchain demo_a3))) = 1 \<and>
   records_of ''V1'' (app_pending_transactions (app_blockchain demo_a3)) = 0 \<and>
   registered_voters demo_a3 ''V1'' = Some ''ffV1t'' \<and> ''Bob'' \<in> set (app_candidates demo_a3) \<and>
   app_cast_vote 5 demo_a3 ''V1'' ''ffV1t'' ''Bob'' = ((False, ''This voter has already voted''), demo_a3)"
proof -
  have f: "records_of ''V1'' (mined_transactions (chain (blockchain demo_s3))) = 1"
    "records_of ''V1'' (pending_transactions (blockchain demo_s3)) = 0"
    "verify_token demo_s3 ''V1'' ''ffV1t''" "''Bob'' \<in> set (candidates demo_s3)"
    by (simp_all add: demo_s3_def demo_genesis_def demo_block1_def verify_token_def)
  have p: "records_of ''V1'' (pending_transactions (blockchain demo_s2)) = 1"
    "verify_token demo_s2 ''V1'' ''ffV1t''" "''Bob'' \<in> set (candidates demo_s2)"
    by (simp_all add: demo_s2_def verify_token_def)
  have g: "records_of ''V1'' (mined_transactions (app_chain (app_blockchain demo_a3))) = 1"
    "records_of ''V1'' (app_pending_transactions (app_blockchain demo_a3)) = 0"
    "registered_voters demo_a3 ''V1'' = Some ''ffV1t''" "''Bob'' \<in> set (app_candidates demo_a3)"
    by (simp_all add: demo_a3_def demo_app_genesis_def demo_genesis_def demo_block1_def)
  show ?thesis
    using one_vote_per_voter
      [of demo_lib demo_s3 "''V1''" "''ffV1t''" "''Bob''" 5 demo_s2 "''V1''" "''ffV1t''" "''Bob''"
          demo_a3 "''V1''" "''ffV1t''" "''Bob''"]
      demo_reachable(3,4) demo_app_reachable(4) f p g
    by simp
qed

section \<open>The two pending stores (claim C10)\<close>

lemma reachable_pending_sync:
  "reachable L s \<Longrightarrow>
     PStr ` dom (pending_votes s) = voter_ids (pending_transactions (blockchain s))"
  using reachable_inv[of L s] by (simp add: system_inv_def)

lemma reachable_pending_same_record:
  "reachable L s \<Longrightarrow> pending_votes s v = Some t \<Longrightarrow>
     t \<in> set (pending_transactions (blockchain s)) \<and> lookup ''voter_id'' t = Some (PStr v)"
  using reachable_inv[of L s] by (simp add: system_inv_def)

lemma cast_vote_accepted:
  "cast_vote now s v tok c = (msg_vote_cast, s') \<Longrightarrow>
     pending_votes s' = (pending_votes s)(v \<mapsto> vote_transaction v c now) \<and>
     pending_transactions (blockchain s')
       = pending_transactions (blockchain s) @ [vote_transaction v c now]"
  by (auto simp: cast_vote_def Let_def add_transaction_def msg_vote_cast_def
      msg_not_registered_def msg_invalid_token_def msg_invalid_candidate_def msg_already_voted_def
      split: option.splits if_splits)

lemma mine_votes_clears:
  assumes "mine_votes L now s = Some (Inr (msg, s'))"
  shows "if pending_transactions (blockchain s) = []
         then msg = ''No votes to mine'' \<and> s' = s
         else msg = ''Votes mined successfully!'' \<and> pending_votes s' = Map.empty \<and>
              pending_transactions (blockchain s') = []"
proof -
  from assms obtain r bc' where
    mp: "mine_pending_transactions L now (blockchain s) = Some (Inr (r, bc'))"
    and s': "(msg, s') = (if r then (''Votes mined successfully!'',
                                    s\<lparr>blockchain := bc', pending_votes := Map.empty\<rparr>)
                          else (''No votes to mine'', s\<lparr>blockchain := bc'\<rparr>))"
    by (auto simp: mine_votes_def split: option.splits sum.splits if_splits)
  from mine_pending_transactions_cases[OF mp] s' show ?thesis
    by (auto split: if_splits)
qed

text \<open>
  Claim C10: in every state that \<^verbatim>\<open>VotingSystem\<close> of \<^verbatim>\<open>voting_system.py\<close> reaches through
  its operations, the voter ids that are keys of \<^verbatim>\<open>pending_votes\<close> are exactly the voter
  ids found in the records of \<^verbatim>\<open>blockchain.pending_transactions\<close>, and the record kept
  under a key is one of the pending records, of that voter. An accepted \<^verbatim>\<open>cast_vote\<close>
  puts the same record into both stores, and \<^verbatim>\<open>mine_votes\<close> clears \<^verbatim>\<open>pending_votes\<close>
  exactly when the pool was not empty, which is when \<^verbatim>\<open>mine_pending_transactions\<close>
  succeeds and clears the pool; otherwise it changes nothing.
\<close>

theorem pending_stores_in_sync:
  "(reachable L s \<longrightarrow>
      PStr ` dom (pending_votes s) = voter_ids (pending_transactions (blockchain s))) \<and>
   (reachable L s \<and> pending_votes s v = Some t \<longrightarrow>
      t \<in> set (pending_transactions (blockchain s)) \<and> lookup ''voter_id'' t = Some (PStr v)) \<and>
   (cast_vote now s1 v1 tok c = (msg_vote_cast, s1') \<longrightarrow>
      pending_votes s1' = (pending_votes s1)(v1 \<mapsto> vote_transaction v1 c now) \<and>
      pending_transactions (blockchain s1')
        = pending_transactions (blockchain s1) @ [vote_transaction v1 c now]) \<and>
   (mine_votes L now' s2 = Some (Inr (msg, s2')) \<longrightarrow>
      (if pending_transactions (blockchain s2) = []
       then msg = ''No votes to mine'' \<and> s2' = s2
       else msg = ''Votes mined successfully!'' \<and> pending_votes s2' = Map.empty \<and>
            pending_transactions (blockchain s2') = []))"
  using reachable_pending_sync[of L s] reachable_pending_same_record[of L s v t]
    cast_vote_accepted[of now s1 v1 tok c s1'] mine_votes_clears[of L now' s2 msg s2']
  by blast

theorem pending_stores_in_sync_witness:
  "reachable demo_lib demo_s2 \<and>
   dom (pending_votes demo_s2) = {''V1''} \<and>
   voter_ids (pending_transactions (blockchain demo_s2)) = {PStr ''V1''} \<and>
   pending_votes demo_s2 ''V1'' = Some (vote_transaction ''V1'' ''Alice'' 3) \<and>
   vote_transaction ''V1'' ''Alice'' 3 \<in> set (pending_transactions (blockchain demo_s2)) \<and>
   cast_vote 3 demo_s1 ''V1'' ''ffV1t'' ''Alice'' = (msg_vote_cast, demo_s2) \<and>
   dom (pending_votes demo_s1) = {} \<and> pending_transactions (blockchain demo_s1) = [] \<and>
   mine_votes demo_lib 4 demo_s2 = Some (Inr (''Votes mined successfully!'', demo_s3)) \<and>
   pending_votes demo_s3 = Map.empty \<and> pending_transactions (blockchain demo_s3) = []"
  using pending_stores_in_sync
    [of demo_lib demo_s2 "''V1''" "vote_transaction ''V1'' ''Alice'' 3" 3 demo_s1 "''V1''"
        "''ffV1t''" "''Alice''" demo_s2 4 demo_s2 "''Votes mined successfully!''" demo_s3]
    demo_reachable(3) demo_cast demo_mine
  by (simp add: demo_s0_def demo_s1_def demo_s2_def demo_s3_def)

section \<open>Validation of the chain (claim C4)\<close>

lemma is_chain_valid_from_find:
  "is_chain_valid_from L c i =
     (case List.find (fails_at L c) [i..<length c] of
        None \<Rightarrow> (True, [])
      | Some k \<Rightarrow> (False, [report L c k]))"
proof (induction L c i rule: is_chain_valid_from.induct)
  case (1 L c i)
  show ?case
  proof (cases "i < length c")
    case False
    then show ?thesis by (subst is_chain_valid_from.simps) simp
  next
    case True
    then have upt: "[i..<length c] = i # [i + 1..<length c]"
      by (simp add: upt_conv_Cons)
    show ?thesis
    proof (cases "fails_at L c i")
      case True
      with \<open>i < length c\<close> show ?thesis
        by (subst is_chain_valid_from.simps)
          (auto simp: upt fails_at_def hash_mismatch_def link_mismatch_def report_def Let_def)
    next
      case False
      then have h: "hash (c ! i) = calculate_hash L (c ! i)"
        "previous_hash (c ! i) = hash (c ! (i - 1))"
        by (simp_all add: fails_at_def hash_mismatch_def link_mismatch_def)
      have "is_chain_valid_from L c (i + 1) = is_chain_valid_from L c i"
        using \<open>i < length c\<close> h by (subst (2) is_chain_valid_from.simps) (simp add: Let_def)
      with \<open>i < length c\<close> h False "1.IH"[of "c ! i" "c ! (i - 1)"] show ?thesis
        by (simp add: upt)
    qed
  qed
qed

lemma app_is_chain_valid_from_find:
  "app_is_chain_valid_from L c i = (List.find (fails_at L c) [i..<length c] = None)"
proof (induction L c i rule: app_is_chain_valid_from.induct)
  case (1 L c i)
  show ?case
  proof (cases "i < length c")
    case False
    then show ?thesis by (subst app_is_chain_valid_from.simps) simp
  next
    case True
    then have upt: "[i..<length c] = i # [i + 1..<length c]"
      by (simp add: upt_conv_Cons)
    show ?thesis
    proof (cases "fails_at L c i")
      case True
      with \<open>i < length c\<close> show ?thesis
        by (subst app_is_chain_valid_from.simps)
          (auto simp: upt fails_at_def hash_mismatch_def link_mismatch_def Let_def)
    next
      case False
      then have h: "hash (c ! i) = calculate_hash L (c ! i)"
        "previous_hash (c ! i) = hash (c ! (i - 1))"
        by (simp_all add: fails_at_def hash_mismatch_def link_mismatch_def)
      have "app_is_chain_valid_from L c (i + 1) = app_is_chain_valid_from L c i"
        using \<open>i < length c\<close> h by (subst (2) app_is_chain_valid_from.simps) (simp add: Let_def)
      with \<open>i < length c\<close> h False "1.IH"[of "c ! i" "c ! (i - 1)"] show ?thesis
        by (simp add: upt)
    qed
  qed
qed

lemma is_chain_valid_eq:
  "is_chain_valid L bc =
     (case first_failure L (chain bc) of
        None \<Rightarrow> (True, [])
      | Some k \<Rightarrow> (False, [report L (chain bc) k]))"
  by (simp add: is_chain_valid_def first_failure_def is_chain_valid_from_find)

lemma app_is_chain_valid_eq:
  "app_is_chain_valid L abc \<longleftrightarrow> first_failure L (app_chain abc) = None"
  by (simp add: app_is_chain_valid_def first_failure_def app_is_chain_valid_from_find)

text \<open>\<open>first_failure\<close> is the least failing index from 1 on.\<close>

lemma find_upt_None:
  "List.find P [i..<n] = None \<longleftrightarrow> (\<forall>j. i \<le> j \<and> j < n \<longrightarrow> \<not> P j)"
  by (auto simp: find_None_iff)

lemma find_upt_Some:
  "List.find P [i..<n] = Some k \<longleftrightarrow> i \<le> k \<and> k < n \<and> P k \<and> (\<forall>j. i \<le> j \<and> j < k \<longrightarrow> \<not> P j)"
proof
  assume "List.find P [i..<n] = Some k"
  then obtain m where m: "m < length [i..<n]" "P ([i..<n] ! m)" "k = [i..<n] ! m"
    "\<forall>j<m. \<not> P ([i..<n] ! j)"
    by (auto simp: find_Some_iff)
  then have k: "k = i + m" "i + m < n" by auto
  have "\<not> P j" if "i \<le> j" "j < k" for j
  proof -
    from that k have "j - i < m" "i + (j - i) = j" by auto
    with m(4) k that show ?thesis by (metis less_trans nth_upt)
  qed
  with m k show "i \<le> k \<and> k < n \<and> P k \<and> (\<forall>j. i \<le> j \<and> j < k \<longrightarrow> \<not> P j)" by auto
next
  assume a: "i \<le> k \<and> k < n \<and> P k \<and> (\<forall>j. i \<le> j \<and> j < k \<longrightarrow> \<not> P j)"
  then have "k - i < length [i..<n]" "[i..<n] ! (k - i) = k" by auto
  moreover have "\<forall>j<k - i. \<not> P ([i..<n] ! j)" using a by auto
  ultimately show "List.find P [i..<n] = Some k"
    using a unfolding find_Some_iff by (intro exI[of _ "k - i"]) auto
qed

lemma first_failure_None:
  "first_failure L c = None \<longleftrightarrow> (\<forall>i. 1 \<le> i \<and> i < length c \<longrightarrow> \<not> fails_at L c i)"
  unfolding first_failure_def by (rule find_upt_None)

lemma first_failure_Some:
  "first_failure L c = Some k \<longleftrightarrow>
     1 \<le> k \<and> k < length c \<and> fails_at L c k \<and> (\<forall>i. 1 \<le> i \<and> i < k \<longrightarrow> \<not> fails_at L c i)"
  unfolding first_failure_def by (rule find_upt_Some)

text \<open>Scenario E at an index from 1 on: in a chain without failure, a new nonce in block
  \<open>k\<close> that changes its digest makes \<open>k\<close> the first failure, by hash mismatch.\<close>

lemma tamper_nonce_first_failure:
  assumes valid: "first_failure L c = None" and k: "1 \<le> k" "k < length c"
    and changed: "calculate_hash L ((c ! k)\<lparr>nonce := n\<rparr>) \<noteq> hash (c ! k)"
  shows "first_failure L (c[k := (c ! k)\<lparr>nonce := n\<rparr>]) = Some k \<and>
         hash_mismatch L (c[k := (c ! k)\<lparr>nonce := n\<rparr>]) k"
proof -
  let ?c = "c[k := (c ! k)\<lparr>nonce := n\<rparr>]"
  have hm: "hash_mismatch L ?c k"
    using k changed by (simp add: hash_mismatch_def)
  have "\<not> fails_at L ?c i" if "1 \<le> i" "i < k" for i
  proof -
    from valid that k have "\<not> fails_at L c i" by (simp add: first_failure_None)
    moreover from that k have "?c ! i = c ! i" "?c ! (i - 1) = c ! (i - 1)" by simp_all
    ultimately show ?thesis by (simp add: fails_at_def hash_mismatch_def link_mismatch_def)
  qed
  with hm k show ?thesis by (simp add: first_failure_Some fails_at_def)
qed

subsection \<open>Evaluation on the small instance\<close>

lemma replicate_numeral: "replicate (numeral k) x = x # replicate (pred_numeral k) x"
  by (simp add: numeral_eq_Suc)

lemmas demo_chain_eval =
  first_failure_def fails_at_def hash_mismatch_def link_mismatch_def
  demo_calculate_hash demo_genesis_def demo_app_genesis_def demo_block1_def demo_block2_def
  upt_conv_Cons replicate_numeral

lemma demo_mine_block2:
  "mine_block demo_lib 2 (Block demo_lib 2 [vote_transaction ''V2'' ''Bob'' 6] 7 ''00in'')
     = Some demo_block2"
  by (simp add: demo_eval demo_block2_def replicate_numeral)

lemma demo_valid: "is_chain_valid demo_lib (blockchain demo_s3) = (True, [])"
  by (simp add: is_chain_valid_eq demo_s3_def demo_chain_eval)

lemma demo_app_valid: "app_is_chain_valid demo_lib (app_blockchain demo_a3)"
  by (simp add: app_is_chain_valid_eq demo_a3_def demo_chain_eval)

text \<open>
  Claim C4 says that a failed validation reports the first failing index, and that after
  the nonce of a stored block is mutated the validation is invalid and names that block.
  \<^verbatim>\<open>is_chain_valid\<close> of \<^verbatim>\<open>app.py\<close> returns \<^verbatim>\<open>False\<close> and nothing else, whether the first
  failure is at index 1 or at index 2; and since the loop starts at index 1, the hash of
  block 0 is never recomputed: with the nonce of the genesis block mutated, so that its
  stored hash is no longer its digest, \<^verbatim>\<open>is_chain_valid\<close> of \<^verbatim>\<open>blockchain.py\<close> still
  returns \<^verbatim>\<open>True\<close> and prints nothing.
\<close>

theorem is_chain_valid_report_counterexample:
  "first_failure demo_lib [demo_app_genesis, demo_block1\<lparr>nonce := 7\<rparr>, demo_block2] = Some 1 \<and>
   app_is_chain_valid demo_lib
     \<lparr>app_chain = [demo_app_genesis, demo_block1\<lparr>nonce := 7\<rparr>, demo_block2], app_difficulty = 2,
      app_pending_transactions = [], voted_voters = {''V1'', ''V2''}\<rparr> = False \<and>
   first_failure demo_lib [demo_app_genesis, demo_block1, demo_block2\<lparr>nonce := 7\<rparr>] = Some 2 \<and>
   app_is_chain_valid demo_lib
     \<lparr>app_chain = [demo_app_genesis, demo_block1, demo_block2\<lparr>nonce := 7\<rparr>], app_difficulty = 2,
      app_pending_transactions = [], voted_voters = {''V1'', ''V2''}\<rparr> = False \<and>
   hash (demo_genesis\<lparr>nonce := 7\<rparr>) \<noteq> calculate_hash demo_lib (demo_genesis\<lparr>nonce := 7\<rparr>) \<and>
   is_chain_valid demo_lib
     \<lparr>chain = [demo_genesis\<lparr>nonce := 7\<rparr>, demo_block1], difficulty = 2,
      pending_transactions = []\<rparr> = (True, [])"
  by (simp add: is_chain_valid_eq app_is_chain_valid_eq demo_chain_eval)

text \<open>
  Claim C4, amended: \<^verbatim>\<open>is_chain_valid\<close> is a function of the chain contents alone and
  changes nothing. For each index \<open>i\<close> from 1 to the end (block 0 is never checked itself)
  it recomputes the digest of block \<open>i\<close> from its stored fields and compares it with the
  stored hash, and compares the previous hash of block \<open>i\<close> with the hash of block
  \<open>i - 1\<close>. It returns \<^verbatim>\<open>True\<close> iff no index from 1 on fails, and \<^verbatim>\<open>False\<close> otherwise,
  stopping at the first failing index. The version of \<^verbatim>\<open>blockchain.py\<close> then prints one
  line naming that first failing index, the line for a hash mismatch if the hash fails
  there, the line for the link otherwise; the version of \<^verbatim>\<open>app.py\<close> returns the flag
  only and names no index. After the nonce of a stored block at an index \<open>j\<close> from 1 on is
  mutated in a valid chain so that its digest no longer is its stored hash, the result is
  \<^verbatim>\<open>False\<close>, and \<^verbatim>\<open>blockchain.py\<close> prints that the hash of block \<open>j\<close> is invalid.
\<close>

theorem is_chain_valid_first_failure:
  "is_chain_valid L bc =
     (case first_failure L (chain bc) of
        None \<Rightarrow> (True, [])
      | Some k \<Rightarrow> (False, [report L (chain bc) k])) \<and>
   (app_is_chain_valid L abc \<longleftrightarrow> first_failure L (app_chain abc) = None) \<and>
   (first_failure L c = None \<longleftrightarrow> (\<forall>i. 1 \<le> i \<and> i < length c \<longrightarrow> \<not> fails_at L c i)) \<and>
   (first_failure L c = Some k \<longleftrightarrow>
      1 \<le> k \<and> k < length c \<and> fails_at L c k \<and> (\<forall>i. 1 \<le> i \<and> i < k \<longrightarrow> \<not> fails_at L c i)) \<and>
   (chain bc1 = chain bc2 \<longrightarrow> is_chain_valid L bc1 = is_chain_valid L bc2) \<and>
   (fst (is_chain_valid L bc) \<and> 1 \<le> j \<and> j < length (chain bc) \<and>
    calculate_hash L ((chain bc ! j)\<lparr>nonce := n\<rparr>) \<noteq> hash (chain bc ! j) \<longrightarrow>
      is_chain_valid L (bc\<lparr>chain := (chain bc)[j := (chain bc ! j)\<lparr>nonce := n\<rparr>]\<rparr>)
        = (False, [''Block '' @ str_nat j @ '' hash is invalid!''])) \<and>
   (app_is_chain_valid L abc \<and> 1 \<le> j' \<and> j' < length (app_chain abc) \<and>
    calculate_hash L ((app_chain abc ! j')\<lparr>nonce := n'\<rparr>) \<noteq> hash (app_chain abc ! j') \<longrightarrow>
      \<not> app_is_chain_valid L
          (abc\<lparr>app_chain := (app_chain abc)[j' := (app_chain abc ! j')\<lparr>nonce := n'\<rparr>]\<rparr>))"
proof -
  have pure: "chain bc1 = chain bc2 \<longrightarrow> is_chain_valid L bc1 = is_chain_valid L bc2"
    by (simp add: is_chain_valid_def)
  have tamper: "is_chain_valid L (bc\<lparr>chain := (chain bc)[j := (chain bc ! j)\<lparr>nonce := n\<rparr>]\<rparr>)
        = (False, [''Block '' @ str_nat j @ '' hash is invalid!''])"
    if "fst (is_chain_valid L bc)" "1 \<le> j" "j < length (chain bc)"
      "calculate_hash L ((chain bc ! j)\<lparr>nonce := n\<rparr>) \<noteq> hash (chain bc ! j)"
  proof -
    from that(1) have "first_failure L (chain bc) = None"
      by (simp add: is_chain_valid_eq split: option.splits)
    from tamper_nonce_first_failure[OF this that(2,3,4)] show ?thesis
      by (simp add: is_chain_valid_eq report_def)
  qed
  have app_tamper: "\<not> app_is_chain_valid L
          (abc\<lparr>app_chain := (app_chain abc)[j' := (app_chain abc ! j')\<lparr>nonce := n'\<rparr>]\<rparr>)"
    if "app_is_chain_valid L abc" "1 \<le> j'" "j' < length (app_chain abc)"
      "calculate_hash L ((app_chain abc ! j')\<lparr>nonce := n'\<rparr>) \<noteq> hash (app_chain abc ! j')"
  proof -
    from that(1) have "first_failure L (app_chain abc) = None"
      by (simp add: app_is_chain_valid_eq)
    from tamper_nonce_first_failure[OF this that(2,3,4)] show ?thesis
      by (simp add: app_is_chain_valid_eq)
  qed
  from pure tamper app_tamper show ?thesis
    using is_chain_valid_eq[of L bc] app_is_chain_valid_eq[of L abc]
      first_failure_None[of L c] first_failure_Some[of L c k]
    by blast
qed

theorem is_chain_valid_first_failure_witness:
  "is_chain_valid demo_lib (blockchain demo_s3) = (True, []) \<and>
   first_failure demo_lib (chain (blockchain demo_s3)) = None \<and>
   (1::nat) \<le> 1 \<and> 1 < length (chain (blockchain demo_s3)) \<and>
   calculate_hash demo_lib ((chain (blockchain demo_s3) ! 1)\<lparr>nonce := 7\<rparr>)
     \<noteq> hash (chain (blockchain demo_s3) ! 1) \<and>
   is_chain_valid demo_lib
     ((blockchain demo_s3)\<lparr>chain := [demo_genesis, demo_block1\<lparr>nonce := 7\<rparr>]\<rparr>)
     = (False, [''Block 1 hash is invalid!'']) \<and>
   app_is_chain_valid demo_lib (app_blockchain demo_a3) \<and>
   \<not> app_is_chain_valid demo_lib
       ((app_blockchain demo_a3)\<lparr>app_chain := [demo_app_genesis, demo_block1\<lparr>nonce := 7\<rparr>]\<rparr>)"
proof -
  have v: "fst (is_chain_valid demo_lib (blockchain demo_s3))"
    by (simp add: demo_valid)
  have h: "(1::nat) \<le> 1" "1 < length (chain (blockchain demo_s3))"
    "calculate_hash demo_lib ((chain (blockchain demo_s3) ! 1)\<lparr>nonce := 7\<rparr>)
       \<noteq> hash (chain (blockchain demo_s3) ! 1)"
    "1 < length (app_chain (app_blockchain demo_a3))"
    "calculate_hash demo_lib ((app_chain (app_blockchain demo_a3) ! 1)\<lparr>nonce := 7\<rparr>)
       \<noteq> hash (app_chain (app_blockchain demo_a3) ! 1)"
    by (simp_all add: demo_s3_def demo_a3_def demo_calculate_hash demo_block1_def
        replicate_numeral)
  have e: "(chain (blockchain demo_s3))[1 := (chain (blockchain demo_s3) ! 1)\<lparr>nonce := 7\<rparr>]
      = [demo_genesis, demo_block1\<lparr>nonce := 7\<rparr>]"
    "(app_chain (app_blockchain demo_a3))[1 := (app_chain (app_blockchain demo_a3) ! 1)\<lparr>nonce := 7\<rparr>]
      = [demo_app_genesis, demo_block1\<lparr>nonce := 7\<rparr>]"
    by (simp_all add: demo_s3_def demo_a3_def)
  have ff: "first_failure demo_lib (chain (blockchain demo_s3)) = None"
    by (simp add: demo_s3_def demo_chain_eval)
  have s: "str_nat 1 = ''1''"
    by (simp add: str_nat.simps digit_char_def)
  show ?thesis
    using is_chain_valid_first_failure
      [of demo_lib "blockchain demo_s3" "app_blockchain demo_a3" "chain (blockchain demo_s3)" 1
          "blockchain demo_s3" "blockchain demo_s3" 1 7 1 7]
      v h ff demo_valid demo_app_valid
    by (simp only: e s) simp
qed

end
